theory Spec2Isabelle
  imports Complex_Main "HOL-Library.Multiset" "HOL-Library.Product_Lexorder"
begin


section \<open>Flight search: a model of \<^verbatim>\<open>flight_search.py\<close>\<close>

text \<open>
  The program is Python 3. A Python \<^verbatim>\<open>str\<close> is a sequence of Unicode code points, and
  the pound sign (U+00A3) and the euro sign (U+20AC) of the price patterns lie outside
  ASCII, so a string is modelled as a list of code points (natural numbers), not as a
  list of 8-bit characters. \<open>asc\<close> turns an ASCII literal into such a list.
\<close>

subsection \<open>Strings and the character classes of the runtime\<close>

type_synonym ustr = "nat list"

definition asc :: "string \<Rightarrow> ustr" where
  "asc s = map of_char s"

text \<open>
  In a \<^verbatim>\<open>str\<close> pattern, \<^verbatim>\<open>\d\<close> matches every code point of the Unicode category Nd
  (decimal digit), not only \<^verbatim>\<open>0-9\<close>; \<^verbatim>\<open>float\<close> and \<^verbatim>\<open>int\<close> read those digits too.
  The category consists of runs of ten consecutive code points, the digits zero to nine
  of one script. \<open>nd_zeros\<close> lists the code point of each zero, for Unicode 14.0.0
  (the table of CPython 3.11).
\<close>

definition nd_zeros :: "nat list" where
  "nd_zeros =
    [48, 1632, 1776, 1984, 2406, 2534, 2662, 2790, 2918, 3046, 3174, 3302, 3430, 3558,
     3664, 3792, 3872, 4160, 4240, 6112, 6160, 6470, 6608, 6784, 6800, 6992, 7088, 7232,
     7248, 42528, 43216, 43264, 43472, 43504, 43600, 44016, 65296, 66720, 68912, 69734,
     69872, 69942, 70096, 70384, 70736, 70864, 71248, 71360, 71472, 71904, 72016, 72784,
     73040, 73120, 92768, 92864, 93008, 120782, 120792, 120802, 120812, 120822, 123200,
     123632, 125264, 130032]"

text \<open>The value of a decimal digit (\<^verbatim>\<open>Py_UNICODE_TODECIMAL\<close>), or \<open>None\<close>.\<close>

fun decimal_in :: "nat list \<Rightarrow> nat \<Rightarrow> nat option" where
  "decimal_in [] c = None"
| "decimal_in (z # zs) c = (if z \<le> c \<and> c < z + 10 then Some (c - z) else decimal_in zs c)"

definition to_decimal :: "nat \<Rightarrow> nat option" where
  "to_decimal c = decimal_in nd_zeros c"

definition is_decimal :: "nat \<Rightarrow> bool" where
  "is_decimal c \<longleftrightarrow> to_decimal c \<noteq> None"

subsection \<open>Price extraction (\<^verbatim>\<open>FlightSearcher._extract_price\<close>)\<close>

text \<open>
  \<^verbatim>\<open>
  patterns = [
      r'\$[\d,]+(?:\.\d{2})?',  # $485 or $1,234.56
      r'\<pounds>[\d,]+(?:\.\d{2})?',   # \<pounds>485
      r'\<euro>[\d,]+(?:\.\d{2})?',   # \<euro>485
  ]
  for pattern in patterns:
      match = re.search(pattern, text)
      if match:
          return match.group(0)
  return None
  \<close>
  The three patterns differ in the currency symbol only. At one position a pattern
  matches when the symbol is there and at least one character of the class
  \<^verbatim>\<open>[\d,]\<close> follows. The class is greedy, so it takes the longest run of digits and
  commas; the optional group then takes a dot and two digits when they follow the run.
  No shorter run can be followed by a dot, so backtracking never changes the match.
  \<^verbatim>\<open>re.search\<close> returns the match at the leftmost position that has one.
\<close>

definition dollar :: nat where "dollar = 36"
definition pound :: nat where "pound = 163"
definition euro :: nat where "euro = 8364"
definition comma :: nat where "comma = 44"
definition dot :: nat where "dot = 46"

definition price_class :: "nat \<Rightarrow> bool" where
  "price_class c \<longleftrightarrow> is_decimal c \<or> c = comma"

fun cents :: "ustr \<Rightarrow> ustr" where
  "cents (p # a # b # rest) = (if p = dot \<and> is_decimal a \<and> is_decimal b then [p, a, b] else [])"
| "cents _ = []"

fun match_price_at :: "nat \<Rightarrow> ustr \<Rightarrow> ustr option" where
  "match_price_at cur [] = None"
| "match_price_at cur (c # cs) =
     (if c = cur \<and> takeWhile price_class cs \<noteq> []
      then Some (c # takeWhile price_class cs @ cents (dropWhile price_class cs))
      else None)"

fun re_search_price :: "nat \<Rightarrow> ustr \<Rightarrow> ustr option" where
  "re_search_price cur [] = None"
| "re_search_price cur (c # cs) =
     (case match_price_at cur (c # cs) of
        Some m \<Rightarrow> Some m
      | None \<Rightarrow> re_search_price cur cs)"

definition patterns :: "nat list" where
  "patterns = [dollar, pound, euro]"

fun extract_loop :: "nat list \<Rightarrow> ustr \<Rightarrow> ustr option" where
  "extract_loop [] text = None"
| "extract_loop (cur # curs) text =
     (case re_search_price cur text of
        Some m \<Rightarrow> Some m
      | None \<Rightarrow> extract_loop curs text)"

definition extract_price :: "ustr \<Rightarrow> ustr option" where
  "extract_price text = extract_loop patterns text"

subsection \<open>Floating-point numbers and the built-in \<^verbatim>\<open>float\<close>\<close>

text \<open>
  A Python \<^verbatim>\<open>float\<close> is an IEEE 754 double: not-a-number, an infinity, or a finite
  binary fraction, which is a rational number. The two zeros compare equal and the
  program only compares floats, so both are \<open>Fin 0\<close>.
\<close>

datatype pyfloat = NaN | NegInf | Fin rat | PosInf

text \<open>The comparison \<^verbatim>\<open><\<close> of two floats; every comparison with NaN is false.\<close>

fun py_lt :: "pyfloat \<Rightarrow> pyfloat \<Rightarrow> bool" where
  "py_lt NaN y = False"
| "py_lt x NaN = False"
| "py_lt NegInf NegInf = False"
| "py_lt NegInf y = True"
| "py_lt (Fin a) (Fin b) = (a < b)"
| "py_lt (Fin a) PosInf = True"
| "py_lt (Fin a) NegInf = False"
| "py_lt PosInf y = False"

fun py_neg :: "pyfloat \<Rightarrow> pyfloat" where
  "py_neg NaN = NaN"
| "py_neg NegInf = PosInf"
| "py_neg (Fin a) = Fin (- a)"
| "py_neg PosInf = NegInf"

text \<open>
  Rounding a positive ratio \<open>a / b\<close> to the nearest double, ties to the even
  significand. \<open>bitlen n\<close> is the number of binary digits of \<open>n\<close>; \<open>ilog2 a b\<close> is
  the integer \<open>e\<close> with \<open>2^e \<le> a / b < 2^(e + 1)\<close>. A double has 53 significant bits
  and its last place is worth at least \<open>2^-1074\<close>, so the last place of the result is
  \<open>2^p\<close> with \<open>p = max (e - 52) (-1074)\<close>, and the significand is \<open>a / b / 2^p\<close>
  rounded to an integer. A result of \<open>2^1024\<close> or more is an infinity.
\<close>

fun bitlen :: "nat \<Rightarrow> nat" where
  "bitlen n = (if n = 0 then 0 else Suc (bitlen (n div 2)))"

declare bitlen.simps [simp del]

definition ilog2 :: "nat \<Rightarrow> nat \<Rightarrow> int" where
  "ilog2 a b =
     (let d = int (bitlen a) - int (bitlen b) in
      if (if 0 \<le> d then b * 2 ^ nat d \<le> a else b \<le> a * 2 ^ nat (- d)) then d else d - 1)"

definition round_half_even :: "nat \<Rightarrow> nat \<Rightarrow> nat" where
  "round_half_even n d =
     (let q = n div d; r = n mod d in
      if 2 * r < d then q
      else if d < 2 * r then q + 1
      else if even q then q else q + 1)"

definition round_double :: "nat \<Rightarrow> nat \<Rightarrow> pyfloat" where
  "round_double a b =
     (if a = 0 then Fin 0
      else
        let p = max (ilog2 a b - 52) (- 1074);
            m = (if 0 \<le> p then round_half_even a (b * 2 ^ nat p)
                 else round_half_even (a * 2 ^ nat (- p)) b);
            v = (if 0 \<le> p then of_nat m * 2 ^ nat p else of_nat m / 2 ^ nat (- p))
        in if 2 ^ 1024 \<le> v then PosInf else Fin v)"

text \<open>The double nearest to \<open>n * 10^k\<close>, for a natural number \<open>n\<close> and an integer \<open>k\<close>.\<close>

definition decimal_to_double :: "nat \<Rightarrow> int \<Rightarrow> pyfloat" where
  "decimal_to_double n k =
     (if 0 \<le> k then round_double (n * 10 ^ nat k) 1 else round_double n (10 ^ nat (- k)))"

text \<open>
  \<^verbatim>\<open>float(s)\<close> for a string. The runtime first rewrites the string
  (\<^verbatim>\<open>_PyUnicode_TransformDecimalAndSpaceToASCII\<close>): a code point below 127 stays, a
  Unicode space becomes a blank, a Unicode decimal digit becomes its ASCII digit, and
  at any other code point the string is cut and ends with a question mark. (A string
  that is ASCII throughout is not rewritten; it may hold code point 127, which then
  fails in the number syntax as the question mark does.)
\<close>

definition is_space :: "nat \<Rightarrow> bool" where
  "is_space c \<longleftrightarrow>
     (9 \<le> c \<and> c \<le> 13) \<or> (28 \<le> c \<and> c \<le> 32) \<or> c = 133 \<or> c = 160 \<or> c = 5760 \<or>
     (8192 \<le> c \<and> c \<le> 8202) \<or> c = 8232 \<or> c = 8233 \<or> c = 8239 \<or> c = 8287 \<or> c = 12288"

fun transform_decimal_and_space :: "ustr \<Rightarrow> ustr" where
  "transform_decimal_and_space [] = []"
| "transform_decimal_and_space (c # cs) =
     (if c < 127 then c # transform_decimal_and_space cs
      else if is_space c then 32 # transform_decimal_and_space cs
      else (case to_decimal c of
              None \<Rightarrow> [63]
            | Some d \<Rightarrow> (48 + d) # transform_decimal_and_space cs))"

text \<open>
  Then blanks of the C locale (\<^verbatim>\<open>Py_ISSPACE\<close>) are stripped at both ends, and
  underscores are checked and removed: an underscore stands between two ASCII digits.
\<close>

definition is_c_space :: "nat \<Rightarrow> bool" where
  "is_c_space c \<longleftrightarrow> (9 \<le> c \<and> c \<le> 13) \<or> c = 32"

definition is_ascii_digit :: "nat \<Rightarrow> bool" where
  "is_ascii_digit c \<longleftrightarrow> 48 \<le> c \<and> c \<le> 57"

definition strip_c_space :: "ustr \<Rightarrow> ustr" where
  "strip_c_space s = rev (dropWhile is_c_space (rev (dropWhile is_c_space s)))"

text \<open>\<open>prev\<close> is the character before, 0 at the start, as in the C loop.\<close>

fun remove_underscores :: "nat \<Rightarrow> ustr \<Rightarrow> ustr option" where
  "remove_underscores prev [] = (if prev = 95 then None else Some [])"
| "remove_underscores prev (c # cs) =
     (if c = 95 then
        (if is_ascii_digit prev then remove_underscores c cs else None)
      else if prev = 95 \<and> \<not> is_ascii_digit c then None
      else map_option ((#) c) (remove_underscores c cs))"

text \<open>
  The number syntax of \<^verbatim>\<open>_Py_dg_strtod\<close>: digits, an optional dot and more digits, at
  least one digit in all, and an optional exponent \<^verbatim>\<open>e\<close> or \<^verbatim>\<open>E\<close> with an optional
  sign and at least one digit. The whole string has to be used up. (The C code also
  refuses more than \<open>10^9\<close> digits; no such string is considered here.)
\<close>

definition digits_value :: "ustr \<Rightarrow> nat" where
  "digits_value ds = foldl (\<lambda>acc c. 10 * acc + (c - 48)) 0 ds"

definition parse_exponent :: "ustr \<Rightarrow> int option" where
  "parse_exponent s =
     (case s of
        [] \<Rightarrow> Some 0
      | c # r \<Rightarrow>
          if c = 101 \<or> c = 69 then
            (let neg = (r \<noteq> [] \<and> hd r = 45);
                 ds = (if r \<noteq> [] \<and> (hd r = 45 \<or> hd r = 43) then tl r else r)
             in if ds \<noteq> [] \<and> list_all is_ascii_digit ds
                then Some (if neg then - int (digits_value ds) else int (digits_value ds))
                else None)
          else None)"

definition parse_number :: "ustr \<Rightarrow> pyfloat option" where
  "parse_number s =
     (let ip = takeWhile is_ascii_digit s;
          r1 = dropWhile is_ascii_digit s;
          fp = (if r1 \<noteq> [] \<and> hd r1 = dot then takeWhile is_ascii_digit (tl r1) else []);
          r2 = (if r1 \<noteq> [] \<and> hd r1 = dot then dropWhile is_ascii_digit (tl r1) else r1)
      in if ip = [] \<and> fp = [] then None
         else (case parse_exponent r2 of
                 None \<Rightarrow> None
               | Some e \<Rightarrow> Some (decimal_to_double (digits_value (ip @ fp)) (e - int (length fp)))))"

text \<open>
  When no number is found the runtime tries \<^verbatim>\<open>_Py_parse_inf_or_nan\<close>: the words
  \<^verbatim>\<open>inf\<close>, \<^verbatim>\<open>infinity\<close> and \<^verbatim>\<open>nan\<close>, in any case.
\<close>

definition ascii_lower :: "nat \<Rightarrow> nat" where
  "ascii_lower c = (if 65 \<le> c \<and> c \<le> 90 then c + 32 else c)"

definition parse_inf_or_nan :: "ustr \<Rightarrow> pyfloat option" where
  "parse_inf_or_nan s =
     (let w = map ascii_lower s in
      if w = asc ''inf'' \<or> w = asc ''infinity'' then Some PosInf
      else if w = asc ''nan'' then Some NaN
      else None)"

definition string_to_double :: "ustr \<Rightarrow> pyfloat option" where
  "string_to_double s =
     (let neg = (s \<noteq> [] \<and> hd s = 45);
          body = (if s \<noteq> [] \<and> (hd s = 45 \<or> hd s = 43) then tl s else s);
          r = (case parse_number body of
                 Some x \<Rightarrow> Some x
               | None \<Rightarrow> parse_inf_or_nan body)
      in if neg then map_option py_neg r else r)"

text \<open>\<open>None\<close> stands for the \<^verbatim>\<open>ValueError\<close> that \<^verbatim>\<open>float\<close> raises.\<close>

definition py_float :: "ustr \<Rightarrow> pyfloat option" where
  "py_float s =
     (let t = strip_c_space (transform_decimal_and_space s) in
      if t = [] then None
      else (case remove_underscores 0 t of
              None \<Rightarrow> None
            | Some u \<Rightarrow> string_to_double u))"

subsection \<open>Numeric price parsing (\<^verbatim>\<open>FlightSearcher._parse_price\<close>)\<close>

text \<open>
  \<^verbatim>\<open>
  if not price_str:
      return float('inf')
  clean = re.sub(r'[$\<pounds>\<euro>,]', '', price_str)
  try:
      return float(clean)
  except ValueError:
      return float('inf')
  \<close>
\<close>

definition strip_symbols :: "ustr \<Rightarrow> ustr" where
  "strip_symbols s = filter (\<lambda>c. c \<noteq> dollar \<and> c \<noteq> pound \<and> c \<noteq> euro \<and> c \<noteq> comma) s"

definition parse_price :: "ustr option \<Rightarrow> pyfloat" where
  "parse_price price_str =
     (case price_str of
        None \<Rightarrow> PosInf
      | Some s \<Rightarrow>
          if s = [] then PosInf
          else (case py_float (strip_symbols s) of
                  None \<Rightarrow> PosInf
                | Some x \<Rightarrow> x))"

text \<open>
  Notions for the statements about \<open>parse_price\<close>: the number that a string of
  decimal digits of any script writes, and a string that spells a word in any case.
  (\<open>ascii_lower\<close> changes \<^verbatim>\<open>A-Z\<close> only, as the comparison of the runtime does.)
\<close>

definition digit_val :: "nat \<Rightarrow> nat" where
  "digit_val c = (case to_decimal c of None \<Rightarrow> 0 | Some d \<Rightarrow> d)"

definition decimal_value :: "ustr \<Rightarrow> nat" where
  "decimal_value ds = foldl (\<lambda>acc c. 10 * acc + digit_val c) 0 ds"

definition spells :: "string \<Rightarrow> ustr \<Rightarrow> bool" where
  "spells word w \<longleftrightarrow> map ascii_lower w = asc word"

subsection \<open>Case mapping\<close>

text \<open>
  \<^verbatim>\<open>str.upper\<close> and \<^verbatim>\<open>str.lower\<close> follow the Unicode case tables of the runtime. On
  ASCII they exchange \<^verbatim>\<open>a-z\<close> and \<^verbatim>\<open>A-Z\<close>. The tables for the other code points are not
  part of the program and are taken as parameters: \<open>upper_full c\<close> is the full
  uppercase mapping of one code point of 128 or more (one to three code points), and
  \<open>lower_str s\<close> is the lowercase form of a string that is not ASCII throughout
  (the final sigma makes it depend on the context).
\<close>

record unicode_tables =
  upper_full :: "nat \<Rightarrow> nat list"
  lower_str :: "ustr \<Rightarrow> ustr"

definition ascii_upper :: "nat \<Rightarrow> nat" where
  "ascii_upper c = (if 97 \<le> c \<and> c \<le> 122 then c - 32 else c)"

definition py_upper :: "unicode_tables \<Rightarrow> ustr \<Rightarrow> ustr" where
  "py_upper ucd s = concat (map (\<lambda>c. if c < 128 then [ascii_upper c] else upper_full ucd c) s)"

definition py_lower :: "unicode_tables \<Rightarrow> ustr \<Rightarrow> ustr" where
  "py_lower ucd s = (if list_all (\<lambda>c. c < 128) s then map ascii_lower s else lower_str ucd s)"

text \<open>\<^verbatim>\<open>str.strip()\<close> removes the Unicode spaces at both ends.\<close>

definition py_strip :: "ustr \<Rightarrow> ustr" where
  "py_strip s = rev (dropWhile is_space (rev (dropWhile is_space s)))"

subsection \<open>Validation of the search parameters (\<^verbatim>\<open>FlightSearchParams\<close>)\<close>

text \<open>
  The failures of a field. The first three are raised by the library for a string
  with the constraints \<^verbatim>\<open>min_length=3, max_length=3\<close> in its declaration; the next four
  are the \<^verbatim>\<open>ValueError\<close>s of the validators of the classes, with the string they
  name; the last two are the library's again, for a value that is no string in a
  field declared \<^verbatim>\<open>str\<close> and for a number above the bound \<^verbatim>\<open>le\<close> of a field.
\<close>

datatype field_error =
    StringUnicode
  | StringTooShort
  | StringTooLong
  | InvalidAirportCode ustr
  | InvalidDateFormat ustr
  | DateInPast ustr
  | InvalidURL ustr
  | StringExpected
  | LessThanEqual

text \<open>
  \<^verbatim>\<open>
  v = v.strip().upper()
  if not re.match(r'^[A-Z]{3}$', v):
      raise ValueError(f"Invalid airport code: {v}. Must be 3 letters (e.g., JFK)")
  return v
  \<close>
  Without the multi-line flag, \<^verbatim>\<open>$\<close> matches at the end of the string and also just
  before a line feed that ends the string.
\<close>

definition is_upper_letter :: "nat \<Rightarrow> bool" where
  "is_upper_letter c \<longleftrightarrow> 65 \<le> c \<and> c \<le> 90"

definition match_airport :: "ustr \<Rightarrow> bool" where
  "match_airport v \<longleftrightarrow>
     list_all is_upper_letter (take 3 v) \<and> length (take 3 v) = 3 \<and>
     (drop 3 v = [] \<or> drop 3 v = [10])"

definition validate_airport_code :: "unicode_tables \<Rightarrow> ustr \<Rightarrow> field_error + ustr" where
  "validate_airport_code ucd v0 =
     (let v = py_upper ucd (py_strip v0) in
      if \<not> match_airport v then Inl (InvalidAirportCode v) else Inr v)"

text \<open>
  \<^verbatim>\<open>
  origin: str = Field(..., min_length=3, max_length=3, ...)
  destination: str = Field(..., min_length=3, max_length=3, ...)

  @field_validator('origin', 'destination')
  @classmethod
  def validate_airport_code(cls, v: str) -> str:
  \<close>
  The validator is declared without a mode, which is the mode \<^verbatim>\<open>after\<close>: the library
  first validates the raw string against the declaration of the field, the two length
  constraints included, and calls the validator on a value that has passed. To count
  the characters of a constrained string the library reads it as UTF-8, which fails
  for a string that holds a surrogate code point (U+D800 to U+DFFF).
\<close>

definition is_surrogate :: "nat \<Rightarrow> bool" where
  "is_surrogate c \<longleftrightarrow> 55296 \<le> c \<and> c \<le> 57343"

definition airport_field :: "unicode_tables \<Rightarrow> ustr \<Rightarrow> field_error + ustr" where
  "airport_field ucd raw =
     (if list_ex is_surrogate raw then Inl StringUnicode
      else if length raw < 3 then Inl StringTooShort
      else if 3 < length raw then Inl StringTooLong
      else validate_airport_code ucd raw)"

text \<open>
  \<^verbatim>\<open>
  try:
      date_obj = datetime.strptime(v, '%Y-%m-%d')
  except ValueError:
      raise ValueError(f"Invalid date format: {v}. Must be YYYY-MM-DD (e.g., 2026-05-15)")
  if date_obj.date() < datetime.now().date():
      raise ValueError(f"Date cannot be in the past: {v}")
  return v
  \<close>
  \<^verbatim>\<open>strptime\<close> turns the format into the regular expression
  \<^verbatim>\<open>(?P<Y>\d\d\d\d)-(?P<m>1[0-2]|0[1-9]|[1-9])-(?P<d>3[0-1]|[1-2]\d|0[1-9]|[1-9]| [1-9])\<close>,
  matches it at the start of the string, refuses a string with characters left after
  the match, reads the three groups with \<^verbatim>\<open>int\<close>, and builds a date, which fails for
  the year 0 and for a day that the month does not have. The alternatives of a group
  are tried in the order written. Each function below returns the value read and the
  rest of the string.
\<close>

type_synonym date = "nat \<times> nat \<times> nat"

definition match_year :: "ustr \<Rightarrow> (nat \<times> ustr) option" where
  "match_year s =
     (case s of
        a # b # c # d # rest \<Rightarrow>
          (case (to_decimal a, to_decimal b, to_decimal c, to_decimal d) of
             (Some w, Some x, Some y, Some z) \<Rightarrow> Some (1000 * w + 100 * x + 10 * y + z, rest)
           | _ \<Rightarrow> None)
      | _ \<Rightarrow> None)"

text \<open>All alternatives of the month group that match at the start, in their order.\<close>

definition month_alts :: "ustr \<Rightarrow> (nat \<times> ustr) list" where
  "month_alts s =
     (case s of
        [] \<Rightarrow> []
      | a # r \<Rightarrow>
          (case r of
             [] \<Rightarrow> []
           | b # r' \<Rightarrow>
               (if a = 49 \<and> 48 \<le> b \<and> b \<le> 50 then [(10 + (b - 48), r')] else []) @
               (if a = 48 \<and> 49 \<le> b \<and> b \<le> 57 then [(b - 48, r')] else [])) @
          (if 49 \<le> a \<and> a \<le> 57 then [(a - 48, r)] else []))"

definition day_alts :: "ustr \<Rightarrow> (nat \<times> ustr) list" where
  "day_alts s =
     (case s of
        [] \<Rightarrow> []
      | a # r \<Rightarrow>
          (case r of
             [] \<Rightarrow> []
           | b # r' \<Rightarrow>
               (if a = 51 \<and> 48 \<le> b \<and> b \<le> 49 then [(30 + (b - 48), r')] else []) @
               (if 49 \<le> a \<and> a \<le> 50 \<and> is_decimal b
                then [(10 * (a - 48) + the (to_decimal b), r')] else []) @
               (if a = 48 \<and> 49 \<le> b \<and> b \<le> 57 then [(b - 48, r')] else [])) @
          (if 49 \<le> a \<and> a \<le> 57 then [(a - 48, r)] else []) @
          (case r of
             [] \<Rightarrow> []
           | b # r' \<Rightarrow> (if a = 32 \<and> 49 \<le> b \<and> b \<le> 57 then [(b - 48, r')] else [])))"

text \<open>
  The match of the whole expression: the first month alternative that is followed by
  a hyphen and a day, with the first day alternative there.
\<close>

fun after_month :: "nat \<Rightarrow> (nat \<times> ustr) list \<Rightarrow> (date \<times> ustr) option" where
  "after_month y [] = None"
| "after_month y ((m, r) # alts) =
     (case r of
        [] \<Rightarrow> after_month y alts
      | c # r' \<Rightarrow>
          (if c = 45 then
             (case day_alts r' of
                [] \<Rightarrow> after_month y alts
              | (d, r'') # ds \<Rightarrow> Some ((y, m, d), r''))
           else after_month y alts))"

definition match_ymd :: "ustr \<Rightarrow> (date \<times> ustr) option" where
  "match_ymd s =
     (case match_year s of
        None \<Rightarrow> None
      | Some (y, r) \<Rightarrow>
          (case r of
             [] \<Rightarrow> None
           | c # r' \<Rightarrow> if c = 45 then after_month y (month_alts r') else None))"

definition is_leap :: "nat \<Rightarrow> bool" where
  "is_leap y \<longleftrightarrow> y mod 4 = 0 \<and> (y mod 100 \<noteq> 0 \<or> y mod 400 = 0)"

definition days_in_month :: "nat \<Rightarrow> nat \<Rightarrow> nat" where
  "days_in_month y m =
     (if m = 2 then (if is_leap y then 29 else 28)
      else if m = 4 \<or> m = 6 \<or> m = 9 \<or> m = 11 then 30 else 31)"

definition valid_date :: "date \<Rightarrow> bool" where
  "valid_date d =
     (case d of (y, m, dd) \<Rightarrow>
        1 \<le> y \<and> y \<le> 9999 \<and> 1 \<le> m \<and> m \<le> 12 \<and> 1 \<le> dd \<and> dd \<le> days_in_month y m)"

text \<open>\<open>None\<close> stands for the \<^verbatim>\<open>ValueError\<close> of \<^verbatim>\<open>strptime\<close>.\<close>

definition strptime_ymd :: "ustr \<Rightarrow> date option" where
  "strptime_ymd s =
     (case match_ymd s of
        None \<Rightarrow> None
      | Some (d, rest) \<Rightarrow> if rest \<noteq> [] then None else if valid_date d then Some d else None)"

definition date_less :: "date \<Rightarrow> date \<Rightarrow> bool" where
  "date_less a b =
     (case (a, b) of ((y1, m1, d1), (y2, m2, d2)) \<Rightarrow>
        y1 < y2 \<or> (y1 = y2 \<and> (m1 < m2 \<or> (m1 = m2 \<and> d1 < d2))))"

text \<open>\<open>today\<close> is the local date that \<^verbatim>\<open>datetime.now()\<close> reads.\<close>

definition validate_date :: "date \<Rightarrow> ustr \<Rightarrow> field_error + ustr" where
  "validate_date today v =
     (case strptime_ymd v of
        None \<Rightarrow> Inl (InvalidDateFormat v)
      | Some date_obj \<Rightarrow>
          if date_less date_obj today then Inl (DateInPast v) else Inr v)"

text \<open>
  The four supported values of the site selector, and the parameters. The library
  validates the fields in the order of their declaration and reports the failures of
  all fields together; a member of the enumeration always passes.
\<close>

datatype website_name = SKYSCANNER | GOOGLE | BOOKING | COMPARE

record flight_search_params =
  origin :: ustr
  destination :: ustr
  depart_date :: ustr
  website :: website_name

definition errors_of :: "field_error + ustr \<Rightarrow> field_error list" where
  "errors_of r = (case r of Inl e \<Rightarrow> [e] | Inr v \<Rightarrow> [])"

definition FlightSearchParams ::
  "unicode_tables \<Rightarrow> date \<Rightarrow> ustr \<Rightarrow> ustr \<Rightarrow> ustr \<Rightarrow> website_name
     \<Rightarrow> field_error list + flight_search_params" where
  "FlightSearchParams ucd today o_raw d_raw date_raw site =
     (case (airport_field ucd o_raw, airport_field ucd d_raw, validate_date today date_raw) of
        (Inr o', Inr d', Inr dt) \<Rightarrow>
          Inr \<lparr>origin = o', destination = d', depart_date = dt, website = site\<rparr>
      | (ro, rd, rdt) \<Rightarrow> Inl (errors_of ro @ errors_of rd @ errors_of rdt))"

subsection \<open>Results and site configurations\<close>

text \<open>
  \<^verbatim>\<open>FlightResult\<close>, with the validator of its \<^verbatim>\<open>url\<close> field:
  \<^verbatim>\<open>
  if not v.startswith(('http://', 'https://')):
      raise ValueError(f"Invalid URL: {v}")
  return v
  \<close>
\<close>

record flight_result =
  title :: ustr
  url :: ustr
  description :: ustr
  price :: "ustr option"
  result_website :: ustr

definition startswith :: "ustr \<Rightarrow> ustr \<Rightarrow> bool" where
  "startswith s p \<longleftrightarrow> take (length p) s = p"

definition validate_url :: "ustr \<Rightarrow> field_error + ustr" where
  "validate_url v =
     (if \<not> (startswith v (asc ''http://'') \<or> startswith v (asc ''https://''))
      then Inl (InvalidURL v) else Inr v)"

definition FlightResult ::
  "ustr \<Rightarrow> ustr \<Rightarrow> ustr \<Rightarrow> ustr option \<Rightarrow> ustr \<Rightarrow> field_error list + flight_result" where
  "FlightResult t u d p w =
     (case validate_url u of
        Inl e \<Rightarrow> Inl [e]
      | Inr u' \<Rightarrow>
          Inr \<lparr>title = t, url = u', description = d, price = p, result_website = w\<rparr>)"

text \<open>
  \<^verbatim>\<open>WebsiteConfig\<close> and the table \<^verbatim>\<open>WEBSITES\<close>. A query template is a list of literal
  pieces and of the three placeholders that \<^verbatim>\<open>str.format\<close> fills in.
\<close>

datatype segment = Lit ustr | OriginSlot | DestinationSlot | DateSlot

record website_config =
  domain :: ustr
  name :: ustr
  query_template :: "segment list"

definition WEBSITES :: "website_name \<Rightarrow> website_config option" where
  "WEBSITES w =
     (case w of
        SKYSCANNER \<Rightarrow> Some
          \<lparr>domain = asc ''skyscanner.com'',
           name = asc ''Skyscanner'',
           query_template = [Lit (asc ''site:skyscanner.com direct flights ''), OriginSlot,
             Lit (asc '' to ''), DestinationSlot, Lit (asc '' ''), DateSlot]\<rparr>
      | GOOGLE \<Rightarrow> Some
          \<lparr>domain = asc ''google.com/travel/flights'',
           name = asc ''Google Flights'',
           query_template = [Lit (asc ''site:google.com/travel/flights direct flights ''),
             OriginSlot, Lit (asc '' to ''), DestinationSlot, Lit (asc '' ''), DateSlot]\<rparr>
      | BOOKING \<Rightarrow> Some
          \<lparr>domain = asc ''booking.com/flights'',
           name = asc ''Booking.com'',
           query_template = [Lit (asc ''site:booking.com/flights direct ''), OriginSlot,
             Lit (asc '' to ''), DestinationSlot, Lit (asc '' ''), DateSlot]\<rparr>
      | COMPARE \<Rightarrow> None)"

fun fill :: "flight_search_params \<Rightarrow> segment \<Rightarrow> ustr" where
  "fill params (Lit s) = s"
| "fill params OriginSlot = origin params"
| "fill params DestinationSlot = destination params"
| "fill params DateSlot = depart_date params"

definition format_query :: "segment list \<Rightarrow> flight_search_params \<Rightarrow> ustr" where
  "format_query template params = concat (map (fill params) template)"

subsection \<open>Result extraction (\<^verbatim>\<open>FlightSearcher._parse_results\<close>)\<close>

text \<open>
  The payload of the search service is JSON. Of a value under the keys \<^verbatim>\<open>title\<close>,
  \<^verbatim>\<open>description\<close> and \<^verbatim>\<open>url\<close> the code observes whether it is a string and which,
  and, if it is no string, whether it is false in a condition (\<^verbatim>\<open>null\<close>, \<^verbatim>\<open>false\<close>,
  zero, an empty array or object). An absent key is \<open>None\<close> and reads as the default
  \<^verbatim>\<open>''\<close>. An item that is no object has no method \<^verbatim>\<open>get\<close>. A payload in which
  \<^verbatim>\<open>data.get('web', {}).get('results', [])\<close> cannot be evaluated or iterated raises
  before the loop.
\<close>

datatype jval = JStr ustr | JFalsy | JTruthy

record raw_hit =
  hit_title :: "jval option"
  hit_description :: "jval option"
  hit_url :: "jval option"

datatype item = Object raw_hit | NonObject

datatype py_exception = AttributeError | TypeError | ValueError

datatype payload = Results "item list" | Untraversable py_exception

definition get_field :: "jval option \<Rightarrow> jval" where
  "get_field f = (case f of None \<Rightarrow> JStr [] | Some v \<Rightarrow> v)"

fun falsy :: "jval \<Rightarrow> bool" where
  "falsy (JStr s) = (s = [])"
| "falsy JFalsy = True"
| "falsy JTruthy = False"

text \<open>\<^verbatim>\<open>needle in haystack\<close> for two strings.\<close>

fun contains :: "ustr \<Rightarrow> ustr \<Rightarrow> bool" where
  "contains [] needle = (needle = [])"
| "contains (c # cs) needle = (startswith (c # cs) needle \<or> contains cs needle)"

text \<open>
  \<^verbatim>\<open>
  for item in data.get('web', {}).get('results', []):
      title = item.get('title', '')
      description = item.get('description', '')
      url = item.get('url', '')
      if not url:
          continue
      price = self._extract_price(title + ' ' + description)
      domain_match = site_config.domain in url.lower()
      if domain_match:
          truncated_desc = description[:200] + '...' if len(description) > 200 else description
          try:
              results.append(FlightResult(title=title, url=url, description=truncated_desc,
                                          price=price, website=site_config.name))
          except Exception as e:
              print(f"Skipping invalid result: {e}", file=sys.stderr)
              continue
  return results
  \<close>
  Concatenating a string with a value that is no string is a \<^verbatim>\<open>TypeError\<close>, and a
  value that is no string has no method \<^verbatim>\<open>lower\<close>; both leave the function.
\<close>

fun parse_loop ::
  "unicode_tables \<Rightarrow> website_config \<Rightarrow> item list \<Rightarrow> flight_result list
     \<Rightarrow> py_exception + flight_result list" where
  "parse_loop ucd site_config [] results = Inr results"
| "parse_loop ucd site_config (NonObject # items) results = Inl AttributeError"
| "parse_loop ucd site_config (Object h # items) results =
     (let t = get_field (hit_title h);
          d = get_field (hit_description h);
          u = get_field (hit_url h)
      in if falsy u then parse_loop ucd site_config items results
         else
           (case (t, d) of
              (JStr title_s, JStr description_s) \<Rightarrow>
                (let price_s = extract_price (title_s @ asc '' '' @ description_s) in
                 (case u of
                    JStr url_s \<Rightarrow>
                      if contains (py_lower ucd url_s) (domain site_config) then
                        (let truncated_desc =
                               (if 200 < length description_s
                                then take 200 description_s @ asc ''...'' else description_s)
                         in (case FlightResult title_s url_s truncated_desc price_s
                                    (name site_config) of
                               Inr r \<Rightarrow> parse_loop ucd site_config items (results @ [r])
                             | Inl e \<Rightarrow> parse_loop ucd site_config items results))
                      else parse_loop ucd site_config items results
                  | _ \<Rightarrow> Inl AttributeError))
            | _ \<Rightarrow> Inl TypeError))"

definition parse_results ::
  "unicode_tables \<Rightarrow> payload \<Rightarrow> website_config \<Rightarrow> py_exception + flight_result list" where
  "parse_results ucd data site_config =
     (case data of
        Untraversable e \<Rightarrow> Inl e
      | Results items \<Rightarrow> parse_loop ucd site_config items [])"

text \<open>
  What the specification says of one hit with the strings \<open>t\<close>, \<open>d\<close> and \<open>u\<close> as
  title, description and URL: it is skipped when the URL is empty, when the domain of
  the site does not occur in the URL in lower case, and when the result cannot be
  built (the URL does not start with \<^verbatim>\<open>http://\<close> or \<^verbatim>\<open>https://\<close>); otherwise it
  gives a result whose description is cut to 200 characters and an ellipsis when it
  is longer than that. This definition follows the specification; the theorems
  compare the loop above with it.
\<close>

definition spec_extract_hit ::
  "unicode_tables \<Rightarrow> website_config \<Rightarrow> ustr \<Rightarrow> ustr \<Rightarrow> ustr \<Rightarrow> flight_result option" where
  "spec_extract_hit ucd site_config t d u =
     (if u = [] then None
      else if \<not> contains (py_lower ucd u) (domain site_config) then None
      else if \<not> (startswith u (asc ''http://'') \<or> startswith u (asc ''https://'')) then None
      else Some \<lparr>title = t, url = u,
                 description = (if length d \<le> 200 then d else take 200 d @ asc ''...''),
                 price = extract_price (t @ asc '' '' @ d),
                 result_website = name site_config\<rparr>)"

text \<open>
  One turn of the loop, for any item: an exception, no result, or one result. An item
  is well typed when it is an object whose three fields are strings or absent.
\<close>

definition hit_step ::
  "unicode_tables \<Rightarrow> website_config \<Rightarrow> item \<Rightarrow> py_exception + flight_result option" where
  "hit_step ucd site_config it =
     (case it of
        NonObject \<Rightarrow> Inl AttributeError
      | Object h \<Rightarrow>
          if falsy (get_field (hit_url h)) then Inr None
          else
            (case (get_field (hit_title h), get_field (hit_description h)) of
               (JStr t, JStr d) \<Rightarrow>
                 (case get_field (hit_url h) of
                    JStr u \<Rightarrow> Inr (spec_extract_hit ucd site_config t d u)
                  | _ \<Rightarrow> Inl AttributeError)
             | _ \<Rightarrow> Inl TypeError))"

fun str_of :: "jval option \<Rightarrow> ustr option" where
  "str_of None = Some []"
| "str_of (Some (JStr s)) = Some s"
| "str_of (Some v) = None"

definition well_typed :: "item \<Rightarrow> bool" where
  "well_typed it \<longleftrightarrow>
     (case it of
        NonObject \<Rightarrow> False
      | Object h \<Rightarrow>
          str_of (hit_title h) \<noteq> None \<and> str_of (hit_description h) \<noteq> None \<and>
          str_of (hit_url h) \<noteq> None)"

definition spec_extract_item ::
  "unicode_tables \<Rightarrow> website_config \<Rightarrow> item \<Rightarrow> flight_result option" where
  "spec_extract_item ucd site_config it =
     (case it of
        NonObject \<Rightarrow> None
      | Object h \<Rightarrow>
          (case (str_of (hit_title h), str_of (hit_description h), str_of (hit_url h)) of
             (Some t, Some d, Some u) \<Rightarrow> spec_extract_hit ucd site_config t d u
           | _ \<Rightarrow> None))"

subsection \<open>Sorting and minimum of the runtime\<close>

text \<open>
  \<^verbatim>\<open>list.sort(key=f)\<close> is stable and compares keys with \<^verbatim>\<open><\<close> only. When \<^verbatim>\<open><\<close> orders
  the keys linearly, which it does for floats other than NaN, the result is the one
  stable arrangement in ascending order of the keys, whatever the strategy of the
  sort; \<open>py_sort_by\<close> computes it by insertion from the right. (For keys with NaN the
  result of \<^verbatim>\<open>list.sort\<close> depends on that strategy and is not modelled. The prices the
  program sorts are matches of the price patterns, and \<open>parse_price\<close> is never NaN on
  those: lemma \<open>parse_price_match_not_nan\<close>.)
\<close>

fun insort_by :: "('a \<Rightarrow> pyfloat) \<Rightarrow> 'a \<Rightarrow> 'a list \<Rightarrow> 'a list" where
  "insort_by k x [] = [x]"
| "insort_by k x (y # ys) = (if py_lt (k y) (k x) then y # insort_by k x ys else x # y # ys)"

definition py_sort_by :: "('a \<Rightarrow> pyfloat) \<Rightarrow> 'a list \<Rightarrow> 'a list" where
  "py_sort_by k xs = foldr (insort_by k) xs []"

text \<open>
  \<^verbatim>\<open>min(xs, key=f)\<close> walks the list once and replaces the candidate by a later element
  only when the key of that element is less than the candidate's.
\<close>

fun min_loop :: "('a \<Rightarrow> pyfloat) \<Rightarrow> 'a \<Rightarrow> 'a list \<Rightarrow> 'a" where
  "min_loop k best [] = best"
| "min_loop k best (x # xs) = min_loop k (if py_lt (k x) (k best) then x else best) xs"

text \<open>
  An embedding of the floats into a linear order, used to reason about \<open>py_lt\<close>: on
  floats other than NaN, \<open>py_lt x y\<close> is \<open>rank x < rank y\<close> in the lexicographic order
  of pairs.
\<close>

fun rank :: "pyfloat \<Rightarrow> nat \<times> rat" where
  "rank NegInf = (0, 0)"
| "rank (Fin q) = (1, q)"
| "rank PosInf = (2, 0)"
| "rank NaN = (3, 0)"

subsection \<open>Single-site search (\<^verbatim>\<open>FlightSearcher.search_flights\<close>)\<close>

record search_response =
  response_website :: ustr
  query :: ustr
  results :: "flight_result list"
  cheapest :: "flight_result option"
  count :: nat

text \<open>
  The \<^verbatim>\<open>ErrorResponse\<close> values that the program returns, one constructor for each place
  that builds one (the message texts are left out):
  \<^verbatim>\<open>Use search_all_sites() for comparison mode\<close>,
  \<^verbatim>\<open>Search request timed out after 30 seconds\<close>, \<^verbatim>\<open>Network error: ...\<close>,
  \<^verbatim>\<open>Unexpected error: ...\<close>, and \<^verbatim>\<open>No results found on any of the three sites\<close>, which
  carries \<^verbatim>\<open>sites_checked\<close>.
\<close>

datatype error_response =
    UseComparisonMode
  | TimedOut
  | NetworkError
  | UnexpectedError
  | NoResultsAnySite "ustr list"

text \<open>
  What \<^verbatim>\<open>requests.get\<close>, \<^verbatim>\<open>raise_for_status\<close> and \<^verbatim>\<open>response.json()\<close> do for a query:
  a timeout, another exception of the \<^verbatim>\<open>requests\<close> library, any other exception, or
  a payload.
\<close>

datatype api_reply = Timeout | RequestException | OtherException | Json payload

text \<open>
  The ranking inside \<^verbatim>\<open>search_flights\<close>:
  \<^verbatim>\<open>
  results_with_price = [r for r in results if r.price]
  results_without_price = [r for r in results if not r.price]
  results_with_price.sort(key=lambda x: self._parse_price(x.price))
  final_results = (results_with_price + results_without_price)[:10]
  \<close>
  with \<^verbatim>\<open>cheapest=results_with_price[0] if results_with_price else None\<close>. A price is
  true in a condition when it is a string that is not empty.
\<close>

definition has_price :: "flight_result \<Rightarrow> bool" where
  "has_price r \<longleftrightarrow> (case price r of None \<Rightarrow> False | Some p \<Rightarrow> p \<noteq> [])"

definition results_with_price :: "flight_result list \<Rightarrow> flight_result list" where
  "results_with_price rs = py_sort_by (\<lambda>x. parse_price (price x)) (filter has_price rs)"

definition results_without_price :: "flight_result list \<Rightarrow> flight_result list" where
  "results_without_price rs = filter (\<lambda>r. \<not> has_price r) rs"

definition final_results :: "flight_result list \<Rightarrow> flight_result list" where
  "final_results rs = take 10 (results_with_price rs @ results_without_price rs)"

definition cheapest_of :: "flight_result list \<Rightarrow> flight_result option" where
  "cheapest_of rs = (case results_with_price rs of [] \<Rightarrow> None | r # rest \<Rightarrow> Some r)"

definition search_flights ::
  "unicode_tables \<Rightarrow> (ustr \<Rightarrow> api_reply) \<Rightarrow> flight_search_params
     \<Rightarrow> error_response + search_response" where
  "search_flights ucd api params =
     (if website params = COMPARE then Inl UseComparisonMode
      else
        (case WEBSITES (website params) of
           None \<Rightarrow> Inl UnexpectedError
         | Some site_config \<Rightarrow>
             (let q = format_query (query_template site_config) params in
              (case api q of
                 Timeout \<Rightarrow> Inl TimedOut
               | RequestException \<Rightarrow> Inl NetworkError
               | OtherException \<Rightarrow> Inl UnexpectedError
               | Json data \<Rightarrow>
                   (case parse_results ucd data site_config of
                      Inl e \<Rightarrow> Inl UnexpectedError
                    | Inr rs \<Rightarrow>
                        Inr \<lparr>response_website = name site_config,
                             query = q,
                             results = final_results rs,
                             cheapest = cheapest_of rs,
                             count = length (final_results rs)\<rparr>)))))"

subsection \<open>Multi-site comparison (\<^verbatim>\<open>FlightSearcher.search_all_sites\<close>)\<close>

record comparison_item =
  item_website :: ustr
  cheapest_price :: ustr
  item_url :: ustr
  is_best :: bool

record best_deal =
  deal_website :: ustr
  deal_price :: ustr
  deal_url :: ustr
  deal_title :: ustr

record comparison_response =
  sites_checked :: nat
  comparison :: "comparison_item list"
  best_deal :: best_deal
  all_results :: "search_response list"

text \<open>
  The function returns a \<^verbatim>\<open>ComparisonResponse\<close> or an \<^verbatim>\<open>ErrorResponse\<close>; an exception
  that it does not catch leaves it: the validation error of a model that it builds, or
  an error of the runtime.
\<close>

datatype raised = ValidationError "field_error list" | PyError py_exception

datatype comparison_outcome =
    Raised raised
  | Failure error_response
  | Success comparison_response

definition sites_to_check :: "website_name list" where
  "sites_to_check = [SKYSCANNER, GOOGLE, BOOKING]"

text \<open>
  \<^verbatim>\<open>
  for i, site in enumerate(sites_to_check):
      if i > 0:
          time.sleep(0.5)
      search_params = FlightSearchParams(origin=params.origin, destination=params.destination,
                                         depart_date=params.depart_date, website=site)
      result = self.search_flights(search_params)
      if isinstance(result, SearchResponse) and result.cheapest:
          all_results.append(result)
  \<close>
  Building the parameters of a site validates the three fields again. \<open>today\<close> is
  the local date during the call (it is read once for every site; the model takes the
  day not to change during one call). The pause has no effect on the result.
\<close>

fun collect_results ::
  "unicode_tables \<Rightarrow> (ustr \<Rightarrow> api_reply) \<Rightarrow> date \<Rightarrow> flight_search_params
     \<Rightarrow> website_name list \<Rightarrow> search_response list \<Rightarrow> raised + search_response list" where
  "collect_results ucd api today params [] acc = Inr acc"
| "collect_results ucd api today params (site # sites) acc =
     (case FlightSearchParams ucd today (origin params) (destination params)
             (depart_date params) site of
        Inl errs \<Rightarrow> Inl (ValidationError errs)
      | Inr search_params \<Rightarrow>
          (case search_flights ucd api search_params of
             Inl err \<Rightarrow> collect_results ucd api today params sites acc
           | Inr result \<Rightarrow>
               if cheapest result \<noteq> None
               then collect_results ucd api today params sites (acc @ [result])
               else collect_results ucd api today params sites acc))"

text \<open>
  \<^verbatim>\<open>best_deal = min(all_results, key=lambda x: self._parse_price(x.cheapest.price))\<close>.
  The key of an outcome without a cheapest result would be an \<^verbatim>\<open>AttributeError\<close>.
\<close>

definition cheapest_key :: "search_response \<Rightarrow> pyfloat option" where
  "cheapest_key x = (case cheapest x of None \<Rightarrow> None | Some c \<Rightarrow> Some (parse_price (price c)))"

definition price_key :: "search_response \<Rightarrow> pyfloat" where
  "price_key x = (case cheapest_key x of Some k \<Rightarrow> k | None \<Rightarrow> NaN)"

definition find_best :: "search_response list \<Rightarrow> py_exception + search_response" where
  "find_best rs =
     (case rs of
        [] \<Rightarrow> Inl ValueError
      | r # rest \<Rightarrow>
          if list_ex (\<lambda>x. cheapest_key x = None) rs then Inl AttributeError
          else Inr (min_loop price_key r rest))"

text \<open>
  \<^verbatim>\<open>
  for result in all_results:
      if result.cheapest:
          comparison_summary.append(ComparisonItem(website=result.website,
              cheapest_price=result.cheapest.price, url=result.cheapest.url,
              is_best=result.website == best_deal.website))
  \<close>
  The field \<^verbatim>\<open>cheapest_price\<close> is declared \<^verbatim>\<open>str\<close>, so a cheapest result without a
  price would be a validation error.
\<close>

fun build_rows ::
  "search_response \<Rightarrow> search_response list \<Rightarrow> comparison_item list
     \<Rightarrow> raised + comparison_item list" where
  "build_rows best_r [] rows = Inr rows"
| "build_rows best_r (result # rest) rows =
     (case cheapest result of
        None \<Rightarrow> build_rows best_r rest rows
      | Some c \<Rightarrow>
          (case price c of
             None \<Rightarrow> Inl (ValidationError [StringExpected])
           | Some p \<Rightarrow>
               build_rows best_r rest
                 (rows @ [\<lparr>item_website = response_website result,
                           cheapest_price = p,
                           item_url = url c,
                           is_best = (response_website result = response_website best_r)\<rparr>])))"

definition BestDeal :: "search_response \<Rightarrow> raised + best_deal" where
  "BestDeal best_r =
     (case cheapest best_r of
        None \<Rightarrow> Inl (PyError AttributeError)
      | Some c \<Rightarrow>
          (case price c of
             None \<Rightarrow> Inl (ValidationError [StringExpected])
           | Some p \<Rightarrow>
               Inr \<lparr>deal_website = response_website best_r,
                    deal_price = p,
                    deal_url = url c,
                    deal_title = title c\<rparr>))"

text \<open>
  The rest of the function. \<^verbatim>\<open>sites_checked\<close> is declared with \<^verbatim>\<open>ge=0, le=3\<close>.
  \<^verbatim>\<open>
  if not all_results:
      return ErrorResponse(error="No results found on any of the three sites",
                           sites_checked=["Skyscanner", "Google Flights", "Booking.com"], ...)
  best_deal = min(...)
  ...
  comparison_summary.sort(key=lambda x: self._parse_price(x.cheapest_price))
  return ComparisonResponse(mode="comparison", sites_checked=len(all_results),
      comparison=comparison_summary, best_deal=BestDeal(...), all_results=all_results)
  \<close>
\<close>

definition compare_results :: "search_response list \<Rightarrow> comparison_outcome" where
  "compare_results rs =
     (if rs = [] then
        Failure (NoResultsAnySite [asc ''Skyscanner'', asc ''Google Flights'', asc ''Booking.com''])
      else
        (case find_best rs of
           Inl e \<Rightarrow> Raised (PyError e)
         | Inr best_r \<Rightarrow>
             (case build_rows best_r rs [] of
                Inl e \<Rightarrow> Raised e
              | Inr rows \<Rightarrow>
                  (case BestDeal best_r of
                     Inl e \<Rightarrow> Raised e
                   | Inr deal \<Rightarrow>
                       if 3 < length rs then Raised (ValidationError [LessThanEqual])
                       else
                         Success
                           \<lparr>sites_checked = length rs,
                            comparison =
                              py_sort_by (\<lambda>x. parse_price (Some (cheapest_price x))) rows,
                            best_deal = deal,
                            all_results = rs\<rparr>))))"

definition search_all_sites ::
  "unicode_tables \<Rightarrow> (ustr \<Rightarrow> api_reply) \<Rightarrow> date \<Rightarrow> flight_search_params
     \<Rightarrow> comparison_outcome" where
  "search_all_sites ucd api today params =
     (case collect_results ucd api today params sites_to_check [] of
        Inl e \<Rightarrow> Raised e
      | Inr rs \<Rightarrow> compare_results rs)"

subsection \<open>Notions of the specification for the comparison\<close>

text \<open>
  The parameters validate again on the day \<open>today\<close>: every field passes its
  validation and comes back unchanged. A value of the class in the program has passed
  the validation when it was built.
\<close>

definition params_valid :: "unicode_tables \<Rightarrow> date \<Rightarrow> flight_search_params \<Rightarrow> bool" where
  "params_valid ucd today p \<longleftrightarrow>
     airport_field ucd (origin p) = Inr (origin p) \<and>
     airport_field ucd (destination p) = Inr (destination p) \<and>
     validate_date today (depart_date p) = Inr (depart_date p)"

text \<open>
  The outcome that a site contributes: none when its search fails or finds no priced
  result, else the outcome of the search.
\<close>

definition retained ::
  "unicode_tables \<Rightarrow> (ustr \<Rightarrow> api_reply) \<Rightarrow> flight_search_params \<Rightarrow> website_name
     \<Rightarrow> search_response option" where
  "retained ucd api p site =
     (case search_flights ucd api (p\<lparr>website := site\<rparr>) of
        Inl err \<Rightarrow> None
      | Inr r \<Rightarrow> if cheapest r = None then None else Some r)"

text \<open>
  The comparison row of an outcome \<open>r\<close> when \<open>b\<close> is the best deal: the site of \<open>r\<close>,
  the price text and the URL of its cheapest result, and the flag.
\<close>

definition is_row_of :: "search_response \<Rightarrow> comparison_item \<Rightarrow> search_response \<Rightarrow> bool" where
  "is_row_of b row r \<longleftrightarrow>
     (\<exists>c p. cheapest r = Some c \<and> price c = Some p \<and>
        row = \<lparr>item_website = response_website r, cheapest_price = p, item_url = url c,
               is_best = (response_website r = response_website b)\<rparr>)"

text \<open>
  What holds of every retained outcome: it has a cheapest result with a price text
  whose numeric parse is not NaN.
\<close>

definition priced_outcome :: "search_response \<Rightarrow> bool" where
  "priced_outcome r \<longleftrightarrow>
     (\<exists>c p. cheapest r = Some c \<and> price c = Some p \<and> parse_price (Some p) \<noteq> NaN)"

subsection \<open>Inputs for the examples\<close>

text \<open>
  Case tables that leave every code point outside ASCII as it is, for examples whose
  strings are ASCII; a hit with three strings; and the service of the example of the
  specification, which answers the query of Skyscanner with one hit at \<^verbatim>\<open>$300\<close>, that
  of Google Flights with one hit at \<^verbatim>\<open>$250\<close>, and that of Booking.com with a hit
  without a price.
\<close>

definition ascii_tables :: unicode_tables where
  "ascii_tables = \<lparr>upper_full = (\<lambda>c. [c]), lower_str = (\<lambda>s. s)\<rparr>"

definition hit :: "string \<Rightarrow> string \<Rightarrow> string \<Rightarrow> item" where
  "hit t d u =
     Object \<lparr>hit_title = Some (JStr (asc t)), hit_description = Some (JStr (asc d)),
             hit_url = Some (JStr (asc u))\<rparr>"

definition example_api :: "ustr \<Rightarrow> api_reply" where
  "example_api q =
     (if startswith q (asc ''site:s'') then
        Json (Results [hit ''Fly $300'' ''x'' ''https://skyscanner.com/a''])
      else if startswith q (asc ''site:g'') then
        Json (Results [hit ''Fly $250'' ''y'' ''https://google.com/travel/flights/b''])
      else Json (Results [hit ''Fly'' ''z'' ''https://booking.com/flights/c'']))"

definition skyscanner_config :: website_config where
  "skyscanner_config =
     \<lparr>domain = asc ''skyscanner.com'', name = asc ''Skyscanner'',
      query_template = [Lit (asc ''site:skyscanner.com direct flights ''), OriginSlot,
        Lit (asc '' to ''), DestinationSlot, Lit (asc '' ''), DateSlot]\<rparr>"

definition ranking_example :: payload where
  "ranking_example =
     Results [hit ''A $500'' ''p'' ''https://skyscanner.com'',
              hit ''B $200'' ''q'' ''https://skyscanner.com'',
              hit ''C'' ''r'' ''https://skyscanner.com'',
              hit ''D $200'' ''s'' ''https://skyscanner.com'']"

text \<open>
  Five hits for the site Skyscanner: one that is kept, one with an empty URL, one of
  another domain, one whose URL is no web address, and one with the domain in capital
  letters and a description of 201 characters.
\<close>

definition extractor_example :: "item list" where
  "extractor_example =
     [hit ''A $500'' ''p'' ''https://skyscanner.com'',
      hit ''B'' ''q'' [],
      hit ''C'' ''r'' ''https://example.com'',
      hit ''D'' ''s'' ''ftp://skyscanner.com'',
      hit ''E'' (replicate 201 CHR ''a'') ''https://WWW.SkyScanner.COM/x'']"

definition example_today :: date where
  "example_today = (2026, 11, 3)"

definition skyscanner_outcome :: search_response where
  "skyscanner_outcome =
     \<lparr>response_website = asc ''Skyscanner'',
      query = asc ''site:skyscanner.com direct flights JFK to LHR 2099-01-05'',
      results = [\<lparr>title = asc ''Fly $300'', url = asc ''https://skyscanner.com/a'',
                  description = asc ''x'', price = Some (asc ''$300''),
                  result_website = asc ''Skyscanner''\<rparr>],
      cheapest = Some \<lparr>title = asc ''Fly $300'', url = asc ''https://skyscanner.com/a'',
                  description = asc ''x'', price = Some (asc ''$300''),
                  result_website = asc ''Skyscanner''\<rparr>,
      count = 1\<rparr>"

definition google_outcome :: search_response where
  "google_outcome =
     \<lparr>response_website = asc ''Google Flights'',
      query = asc ''site:google.com/travel/flights direct flights JFK to LHR 2099-01-05'',
      results = [\<lparr>title = asc ''Fly $250'', url = asc ''https://google.com/travel/flights/b'',
                  description = asc ''y'', price = Some (asc ''$250''),
                  result_website = asc ''Google Flights''\<rparr>],
      cheapest = Some \<lparr>title = asc ''Fly $250'',
                  url = asc ''https://google.com/travel/flights/b'',
                  description = asc ''y'', price = Some (asc ''$250''),
                  result_website = asc ''Google Flights''\<rparr>,
      count = 1\<rparr>"

definition example_params :: flight_search_params where
  "example_params =
     \<lparr>origin = asc ''JFK'', destination = asc ''LHR'', depart_date = asc ''2099-01-05'',
      website = COMPARE\<rparr>"

section \<open>Properties\<close>

subsection \<open>Evaluating the character classes\<close>

lemma is_decimal_low: "c < 1632 \<Longrightarrow> is_decimal c \<longleftrightarrow> 48 \<le> c \<and> c \<le> 57"
  by (auto simp add: is_decimal_def to_decimal_def nd_zeros_def)

lemma not_is_decimal_euro: "\<not> is_decimal 8364"
  by (simp add: is_decimal_def to_decimal_def nd_zeros_def)

lemma decimal_in_less: "decimal_in zs c = Some d \<Longrightarrow> d < 10"
  by (induction zs) (auto split: if_splits)

lemma to_decimal_less: "to_decimal c = Some d \<Longrightarrow> d < 10"
  by (simp add: to_decimal_def decimal_in_less)

lemma is_space_not_decimal: "is_space c \<Longrightarrow> \<not> is_decimal c"
  unfolding is_space_def
  by (elim disjE conjE) (simp_all add: is_decimal_def to_decimal_def nd_zeros_def)

lemmas char_defs = dollar_def pound_def euro_def comma_def dot_def

subsection \<open>Price extraction\<close>

text \<open>
  C4. The claim's first example: on the text \<^verbatim>\<open>Flights from $200, also listed at \<pounds>150\<close>
  the extraction is said to yield \<^verbatim>\<open>$200\<close>. The class \<^verbatim>\<open>[\d,]+\<close> also takes the comma that
  follows the amount, so the code returns \<^verbatim>\<open>$200,\<close> with the comma, and not \<^verbatim>\<open>$200\<close>.
\<close>

theorem C4_extract_price_keeps_trailing_comma:
  "extract_price (asc ''Flights from $200, also listed at '' @ [pound] @ asc ''150'')
     = Some (asc ''$200,'')
   \<and> extract_price (asc ''Flights from $200, also listed at '' @ [pound] @ asc ''150'')
     \<noteq> Some (asc ''$200'')"
  by (simp add: extract_price_def patterns_def asc_def char_defs price_class_def is_decimal_low)

subsection \<open>Numeric price parsing\<close>

lemma transform_ascii: "list_all (\<lambda>c. c < 127) s \<Longrightarrow> transform_decimal_and_space s = s"
  by (induction s) auto

lemma dropWhile_hd: "xs \<noteq> [] \<Longrightarrow> \<not> P (hd xs) \<Longrightarrow> dropWhile P xs = xs"
  by (cases xs) auto

lemma strip_c_space_id:
  assumes "s \<noteq> []" "\<not> is_c_space (hd s)" "\<not> is_c_space (last s)"
  shows "strip_c_space s = s"
proof -
  have "dropWhile is_c_space s = s" using assms(1,2) by (rule dropWhile_hd)
  moreover have "dropWhile is_c_space (rev s) = rev s"
    using assms(1,3) by (intro dropWhile_hd) (simp_all add: hd_rev)
  ultimately show ?thesis by (simp add: strip_c_space_def)
qed

lemma remove_underscores_id:
  "prev \<noteq> 95 \<Longrightarrow> 95 \<notin> set s \<Longrightarrow> remove_underscores prev s = Some s"
  by (induction s arbitrary: prev) auto

lemma digit_facts:
  "is_ascii_digit c \<Longrightarrow> c < 127 \<and> \<not> is_c_space c \<and> c \<noteq> 95 \<and> c \<noteq> 45 \<and> c \<noteq> 43 \<and> c \<noteq> dot"
  by (auto simp add: is_ascii_digit_def is_c_space_def dot_def)

lemma parse_number_plain:
  assumes "list_all is_ascii_digit ip" "list_all is_ascii_digit fp" "ip \<noteq> [] \<or> fp \<noteq> []"
  shows "parse_number (ip @ dot # fp)
           = Some (decimal_to_double (digits_value (ip @ fp)) (- int (length fp)))"
proof -
  have nd: "\<not> is_ascii_digit dot" by (simp add: is_ascii_digit_def dot_def)
  have t1: "takeWhile is_ascii_digit (ip @ dot # fp) = ip"
    using assms(1) nd by (simp add: takeWhile_append2 list_all_iff)
  have d1: "dropWhile is_ascii_digit (ip @ dot # fp) = dot # fp"
    using assms(1) nd by (simp add: dropWhile_append2 list_all_iff)
  have t2: "takeWhile is_ascii_digit fp = fp" "dropWhile is_ascii_digit fp = []"
    using assms(2) by (simp_all add: list_all_iff)
  show ?thesis
    using assms(3) by (auto simp add: parse_number_def t1 d1 t2 parse_exponent_def Let_def)
qed

lemma parse_number_int:
  assumes "list_all is_ascii_digit ip" "ip \<noteq> []"
  shows "parse_number ip = Some (decimal_to_double (digits_value ip) 0)"
proof -
  have t1: "takeWhile is_ascii_digit ip = ip" "dropWhile is_ascii_digit ip = []"
    using assms(1) by (simp_all add: list_all_iff)
  show ?thesis
    using assms(2) by (simp add: parse_number_def t1 parse_exponent_def Let_def)
qed

lemma py_float_unsigned:
  assumes "s \<noteq> []" "list_all (\<lambda>c. is_ascii_digit c \<or> c = dot) s"
  shows "py_float s = parse_number s \<or> (parse_number s = None \<and> py_float s = parse_inf_or_nan s)"
proof -
  have e: "c < 127 \<and> c \<noteq> 95 \<and> \<not> is_c_space c \<and> c \<noteq> 45 \<and> c \<noteq> 43" if "c \<in> set s" for c
    using that assms(2) by (auto simp add: list_all_iff is_ascii_digit_def is_c_space_def dot_def)
  have a: "list_all (\<lambda>c. c < 127) s" "95 \<notin> set s"
    using e by (auto simp add: list_all_iff)
  have "hd s \<in> set s" "last s \<in> set s" using assms(1) by simp_all
  then have h: "\<not> is_c_space (hd s)" "\<not> is_c_space (last s)" "hd s \<noteq> 45" "hd s \<noteq> 43"
    using e by blast+
  have tr: "transform_decimal_and_space s = s" using a(1) by (rule transform_ascii)
  have st: "strip_c_space s = s" using assms(1) h(1,2) by (rule strip_c_space_id)
  have ru: "remove_underscores 0 s = Some s" using a(2) by (intro remove_underscores_id) simp_all
  have "py_float s = string_to_double s"
    using assms(1) by (simp add: py_float_def tr st ru)
  moreover have "string_to_double s = (case parse_number s of Some x \<Rightarrow> Some x | None \<Rightarrow> parse_inf_or_nan s)"
    using assms(1) h(3,4) by (simp add: string_to_double_def)
  ultimately show ?thesis by (auto split: option.splits)
qed

lemma py_float_int:
  assumes "list_all is_ascii_digit ip" "ip \<noteq> []"
  shows "py_float ip = Some (decimal_to_double (digits_value ip) 0)"
  using py_float_unsigned [of ip] assms parse_number_int [OF assms]
  by (auto simp add: list_all_iff)

lemma py_float_plain:
  assumes "list_all is_ascii_digit ip" "list_all is_ascii_digit fp" "ip \<noteq> [] \<or> fp \<noteq> []"
  shows "py_float (ip @ dot # fp)
           = Some (decimal_to_double (digits_value (ip @ fp)) (- int (length fp)))"
  using py_float_unsigned [of "ip @ dot # fp"] assms parse_number_plain [OF assms]
  by (auto simp add: list_all_iff)

lemma bitlen_numeral [simp]:
  "bitlen 0 = 0"
  "bitlen (numeral k) = Suc (bitlen (numeral k div 2))"
  by (simp_all add: bitlen.simps)

lemma decimal_to_double_1234_56:
  "decimal_to_double 123456 (- 2) = Fin (2714826150374277 / 2199023255552)"
  by (simp add: decimal_to_double_def round_double_def ilog2_def round_half_even_def Let_def)

lemma parse_price_digits:
  assumes "strip_symbols s = ip" "ip \<noteq> []" "list_all is_ascii_digit ip"
  shows "parse_price (Some s) = decimal_to_double (digits_value ip) 0"
proof -
  have "s \<noteq> []" using assms(1,2) by (auto simp add: strip_symbols_def)
  then show ?thesis
    using assms py_float_int [of ip] by (simp add: parse_price_def)
qed

lemma parse_price_fraction:
  assumes "strip_symbols s = ip @ dot # fp" "ip \<noteq> []" "fp \<noteq> []"
    "list_all is_ascii_digit ip" "list_all is_ascii_digit fp"
  shows "parse_price (Some s) = decimal_to_double (digits_value (ip @ fp)) (- int (length fp))"
proof -
  have "s \<noteq> []" using assms(1) by (auto simp add: strip_symbols_def)
  then show ?thesis
    using assms py_float_plain [of ip fp] by (simp add: parse_price_def)
qed

lemma digit_val_less: "digit_val c < 10"
  by (cases "to_decimal c") (simp_all add: digit_val_def to_decimal_less)

lemma digit_val_ascii: "is_ascii_digit c \<Longrightarrow> digit_val c = c - 48"
  by (simp add: digit_val_def to_decimal_def nd_zeros_def is_ascii_digit_def)

lemma not_is_decimal_dot: "\<not> is_decimal dot"
  by (simp add: is_decimal_low dot_def)

lemma transform_decimals:
  assumes "\<forall>c\<in>set s. is_decimal c \<or> c = dot"
  shows "transform_decimal_and_space s = map (\<lambda>c. if c = dot then dot else 48 + digit_val c) s"
  using assms
proof (induction s)
  case Nil
  then show ?case by simp
next
  case (Cons a s)
  have ih: "transform_decimal_and_space s
            = map (\<lambda>c. if c = dot then dot else 48 + digit_val c) s"
    using Cons by simp
  have a: "is_decimal a \<or> a = dot" using Cons.prems by simp
  show ?case
  proof (cases "a = dot")
    case True
    then show ?thesis using ih by (simp add: dot_def)
  next
    case False
    then have d: "is_decimal a" using a by simp
    show ?thesis
    proof (cases "a < 127")
      case True
      then have "is_ascii_digit a" using d by (simp add: is_decimal_low is_ascii_digit_def)
      then have "48 + digit_val a = a" by (simp add: digit_val_ascii is_ascii_digit_def)
      then show ?thesis using True False ih by simp
    next
      case big: False
      have ns: "\<not> is_space a" using d is_space_not_decimal by blast
      obtain v where v: "to_decimal a = Some v" using d by (auto simp add: is_decimal_def)
      then have "digit_val a = v" by (simp add: digit_val_def)
      then show ?thesis using big False ns v ih by simp
    qed
  qed
qed

lemma py_float_decimals:
  assumes "\<forall>c\<in>set s. is_decimal c \<or> c = dot"
  shows "py_float s = py_float (map (\<lambda>c. if c = dot then dot else 48 + digit_val c) s)"
proof -
  let ?m = "map (\<lambda>c. if c = dot then dot else 48 + digit_val c) s"
  have b: "(if c = dot then dot else 48 + digit_val c) < 127" for c
    using digit_val_less [of c] by (simp add: dot_def)
  have "list_all (\<lambda>c. c < 127) ?m"
    by (induction s) (simp_all add: b del: if_split)
  then have "transform_decimal_and_space ?m = ?m" by (rule transform_ascii)
  then show ?thesis
    by (simp add: py_float_def transform_decimals [OF assms])
qed

lemma digits_value_map:
  assumes "list_all is_decimal ds"
  shows "digits_value (map (\<lambda>c. if c = dot then dot else 48 + digit_val c) ds) = decimal_value ds"
proof -
  have "foldl (\<lambda>acc c. 10 * acc + (c - 48)) a
          (map (\<lambda>c. if c = dot then dot else 48 + digit_val c) ds)
        = foldl (\<lambda>acc c. 10 * acc + digit_val c) a ds" for a
    using assms
  proof (induction ds arbitrary: a)
    case Nil
    then show ?case by simp
  next
    case (Cons c ds)
    then have "c \<noteq> dot" using not_is_decimal_dot by auto
    then show ?case using Cons by simp
  qed
  then show ?thesis by (simp add: digits_value_def decimal_value_def)
qed

lemma ascii_digits_map:
  assumes "list_all is_decimal ds"
  shows "list_all is_ascii_digit (map (\<lambda>c. if c = dot then dot else 48 + digit_val c) ds)"
proof -
  have "is_ascii_digit (48 + digit_val c)" for c
    using digit_val_less [of c] by (simp add: is_ascii_digit_def)
  moreover have "c \<noteq> dot" if "c \<in> set ds" for c
    using that assms not_is_decimal_dot by (auto simp add: list_all_iff)
  ultimately show ?thesis by (simp add: list_all_iff)
qed

lemma parse_price_decimal_digits:
  assumes "strip_symbols s = ip" "ip \<noteq> []" "list_all is_decimal ip"
  shows "parse_price (Some s) = decimal_to_double (decimal_value ip) 0"
proof -
  let ?g = "\<lambda>c. if c = dot then dot else 48 + digit_val c"
  have s: "s \<noteq> []" using assms(1,2) by (auto simp add: strip_symbols_def)
  have "py_float ip = py_float (map ?g ip)"
    using assms(3) by (intro py_float_decimals) (simp add: list_all_iff)
  also have "\<dots> = Some (decimal_to_double (digits_value (map ?g ip)) 0)"
    using ascii_digits_map [OF assms(3)] assms(2) by (intro py_float_int) simp_all
  finally show ?thesis
    using s assms(1) by (simp add: parse_price_def digits_value_map [OF assms(3)])
qed

lemma parse_price_decimal_fraction:
  assumes "strip_symbols s = ip @ dot # fp" "ip \<noteq> []" "fp \<noteq> []"
    "list_all is_decimal ip" "list_all is_decimal fp"
  shows "parse_price (Some s) = decimal_to_double (decimal_value (ip @ fp)) (- int (length fp))"
proof -
  let ?g = "\<lambda>c. if c = dot then dot else 48 + digit_val c"
  have s: "s \<noteq> []" using assms(1) by (auto simp add: strip_symbols_def)
  have all: "list_all is_decimal (ip @ fp)" using assms(4,5) by simp
  have "py_float (ip @ dot # fp) = py_float (map ?g (ip @ dot # fp))"
    using assms(4,5) by (intro py_float_decimals) (auto simp add: list_all_iff)
  also have "map ?g (ip @ dot # fp) = map ?g ip @ dot # map ?g fp" by simp
  also have "py_float (map ?g ip @ dot # map ?g fp)
      = Some (decimal_to_double (digits_value (map ?g ip @ map ?g fp))
                (- int (length (map ?g fp))))"
    using ascii_digits_map [OF assms(4)] ascii_digits_map [OF assms(5)] assms(2)
    by (intro py_float_plain) simp_all
  also have "digits_value (map ?g ip @ map ?g fp) = decimal_value (ip @ fp)"
    using digits_value_map [OF all] by simp
  finally show ?thesis
    using s assms(1) by (simp add: parse_price_def)
qed

lemma decimal_value_ascii:
  "list_all is_ascii_digit ds \<Longrightarrow> decimal_value ds = digits_value ds"
proof -
  assume a: "list_all is_ascii_digit ds"
  have "foldl (\<lambda>acc c. 10 * acc + digit_val c) b ds
        = foldl (\<lambda>acc c. 10 * acc + (c - 48)) b ds" for b
    using a by (induction ds arbitrary: b) (simp_all add: digit_val_ascii)
  then show ?thesis by (simp add: digits_value_def decimal_value_def)
qed

lemma parse_price_accepted:
  "s \<noteq> [] \<Longrightarrow> py_float (strip_symbols s) = Some x \<Longrightarrow> parse_price (Some s) = x"
  by (simp add: parse_price_def)

lemma spells_letters:
  assumes "spells ''inf'' w \<or> spells ''infinity'' w \<or> spells ''nan'' w" "c \<in> set w"
  shows "(65 \<le> c \<and> c \<le> 90) \<or> (97 \<le> c \<and> c \<le> 122)"
proof -
  have "ascii_lower c \<in> set (map ascii_lower w)" using assms(2) by simp
  then have "ascii_lower c \<in> {105, 110, 102, 116, 121, 97}"
    using assms(1) by (auto simp add: spells_def asc_def)
  then show ?thesis by (auto simp add: ascii_lower_def split: if_splits)
qed

lemma spells_nonempty:
  "spells ''inf'' w \<or> spells ''infinity'' w \<or> spells ''nan'' w \<Longrightarrow> w \<noteq> []"
  by (auto simp add: spells_def asc_def)

lemma parse_number_letter:
  assumes "w \<noteq> []" "(65 \<le> hd w \<and> hd w \<le> 90) \<or> (97 \<le> hd w \<and> hd w \<le> 122)"
  shows "parse_number w = None"
proof -
  obtain c r where w: "w = c # r" using assms(1) by (cases w) auto
  then have "\<not> is_ascii_digit c" "c \<noteq> dot"
    using assms(2) by (auto simp add: is_ascii_digit_def dot_def)
  then show ?thesis using w by (simp add: parse_number_def)
qed

lemma py_float_word:
  assumes "spells ''inf'' w \<or> spells ''infinity'' w \<or> spells ''nan'' w"
  shows "py_float w = parse_inf_or_nan w"
    and "py_float (43 # w) = parse_inf_or_nan w"
    and "py_float (45 # w) = map_option py_neg (parse_inf_or_nan w)"
proof -
  have ne: "w \<noteq> []" using assms by (rule spells_nonempty)
  have l: "(65 \<le> c \<and> c \<le> 90) \<or> (97 \<le> c \<and> c \<le> 122)" if "c \<in> set w" for c
    using spells_letters [OF assms that] .
  have hl: "(65 \<le> hd w \<and> hd w \<le> 90) \<or> (97 \<le> hd w \<and> hd w \<le> 122)"
    "(65 \<le> last w \<and> last w \<le> 90) \<or> (97 \<le> last w \<and> last w \<le> 122)"
    using l ne by simp_all
  have pn: "parse_number w = None" using ne hl(1) by (rule parse_number_letter)
  have pre: "py_float (p @ w) = string_to_double (p @ w)" if "p = [] \<or> p = [43] \<or> p = [45]" for p
  proof -
    have lw: "c < 127 \<and> c \<noteq> 95 \<and> \<not> is_c_space c" if "c \<in> set w" for c
      using l [OF that] by (auto simp add: is_c_space_def)
    have lp: "c < 127 \<and> c \<noteq> 95 \<and> \<not> is_c_space c" if "c \<in> set p" for c
      using that \<open>p = [] \<or> p = [43] \<or> p = [45]\<close> by (auto simp add: is_c_space_def)
    have e: "c < 127 \<and> c \<noteq> 95 \<and> \<not> is_c_space c" if "c \<in> set (p @ w)" for c
      using that lw lp by (cases "c \<in> set w") simp_all
    have n: "p @ w \<noteq> []" using ne by simp
    have "list_all (\<lambda>c. c < 127) (p @ w)" using e by (simp add: list_all_iff)
    then have tr: "transform_decimal_and_space (p @ w) = p @ w" by (rule transform_ascii)
    have "hd (p @ w) \<in> set (p @ w)" using n by (rule hd_in_set)
    moreover have "last (p @ w) \<in> set (p @ w)" using n by (rule last_in_set)
    ultimately have "\<not> is_c_space (hd (p @ w))" "\<not> is_c_space (last (p @ w))"
      using e by blast+
    then have st: "strip_c_space (p @ w) = p @ w" using n by (intro strip_c_space_id)
    have "95 \<notin> set (p @ w)" using e by blast
    then have ru: "remove_underscores 0 (p @ w) = Some (p @ w)"
      by (intro remove_underscores_id) simp_all
    show ?thesis using ne by (simp add: py_float_def tr st ru)
  qed
  have h: "hd w \<noteq> 45" "hd w \<noteq> 43" using hl(1) by auto
  show "py_float w = parse_inf_or_nan w"
    using pre [of "[]"] ne h pn by (simp add: string_to_double_def)
  show "py_float (43 # w) = parse_inf_or_nan w"
    using pre [of "[43]"] pn by (simp add: string_to_double_def)
  show "py_float (45 # w) = map_option py_neg (parse_inf_or_nan w)"
    using pre [of "[45]"] pn by (simp add: string_to_double_def)
qed

lemma parse_inf_or_nan_spells:
  "spells ''inf'' w \<or> spells ''infinity'' w \<Longrightarrow> parse_inf_or_nan w = Some PosInf"
  "spells ''nan'' w \<Longrightarrow> parse_inf_or_nan w = Some NaN"
  by (auto simp add: parse_inf_or_nan_def spells_def asc_def)

lemma parse_price_infinity:
  assumes "strip_symbols s = w \<or> strip_symbols s = 43 # w"
    and "spells ''inf'' w \<or> spells ''infinity'' w"
  shows "parse_price (Some s) = PosInf"
proof -
  have sp: "spells ''inf'' w \<or> spells ''infinity'' w \<or> spells ''nan'' w" using assms(2) by blast
  have "strip_symbols s \<noteq> []" using assms(1) spells_nonempty [OF sp] by auto
  then have "s \<noteq> []" by (auto simp add: strip_symbols_def)
  moreover have "py_float (strip_symbols s) = Some PosInf"
    using assms(1) py_float_word(1,2) [OF sp] parse_inf_or_nan_spells(1) [OF assms(2)] by auto
  ultimately show ?thesis by (simp add: parse_price_def)
qed

lemma parse_price_minus_infinity:
  assumes "strip_symbols s = 45 # w"
    and "spells ''inf'' w \<or> spells ''infinity'' w"
  shows "parse_price (Some s) = NegInf"
proof -
  have sp: "spells ''inf'' w \<or> spells ''infinity'' w \<or> spells ''nan'' w" using assms(2) by blast
  have "s \<noteq> []" using assms(1) by (auto simp add: strip_symbols_def)
  moreover have "py_float (strip_symbols s) = Some NegInf"
    using assms(1) py_float_word(3) [OF sp] parse_inf_or_nan_spells(1) [OF assms(2)] by simp
  ultimately show ?thesis by (simp add: parse_price_def)
qed

lemma parse_price_nan:
  assumes "strip_symbols s = w \<or> strip_symbols s = 43 # w \<or> strip_symbols s = 45 # w"
    and "spells ''nan'' w"
  shows "parse_price (Some s) = NaN"
proof -
  have sp: "spells ''inf'' w \<or> spells ''infinity'' w \<or> spells ''nan'' w" using assms(2) by blast
  have "strip_symbols s \<noteq> []" using assms(1) spells_nonempty [OF sp] by auto
  then have "s \<noteq> []" by (auto simp add: strip_symbols_def)
  moreover have "py_float (strip_symbols s) = Some NaN"
    using assms(1) py_float_word [OF sp] parse_inf_or_nan_spells(2) [OF assms(2)] by auto
  ultimately show ?thesis by (simp add: parse_price_def)
qed

lemma decimal_to_double_small:
  "decimal_to_double 1234 0 = Fin 1234"
  "decimal_to_double 12 0 = Fin 12"
  "decimal_to_double 1 3 = Fin 1000"
  by (simp_all add: decimal_to_double_def round_double_def ilog2_def round_half_even_def Let_def)

text \<open>
  C5, as stated. The claim sends every price string whose remainder, after the symbols
  and commas are removed, is no decimal number to positive infinity. The remainder
  \<^verbatim>\<open>nan\<close> holds no digit at all, and \<^verbatim>\<open>float\<close> accepts it: the result is not-a-number,
  not positive infinity, and it is not less than any number, nor any number less than
  it.
\<close>

theorem C5_nan_is_not_positive_infinity:
  "strip_symbols (asc ''$nan'') = asc ''nan''
   \<and> list_all (\<lambda>c. \<not> is_decimal c) (asc ''nan'')
   \<and> parse_price (Some (asc ''$nan'')) = NaN
   \<and> parse_price (Some (asc ''$nan'')) \<noteq> PosInf"
  by (simp add: parse_price_def asc_def strip_symbols_def char_defs py_float_def is_space_def
      strip_c_space_def is_c_space_def is_ascii_digit_def string_to_double_def parse_number_def
      parse_inf_or_nan_def ascii_lower_def is_decimal_low)

text \<open>
  C5, amended. An absent or empty price is positive infinity. Otherwise the symbols
  \<^verbatim>\<open>$\<close>, \<^verbatim>\<open>\<pounds>\<close>, \<^verbatim>\<open>\<euro>\<close> and the commas are removed and the remainder goes to \<^verbatim>\<open>float\<close>: a
  remainder that \<^verbatim>\<open>float\<close> refuses is positive infinity, and a remainder that \<^verbatim>\<open>float\<close>
  accepts is the value that \<^verbatim>\<open>float\<close> gives it. That value is, for a remainder of
  decimal digits (ASCII or of any other script) with an optional fraction after a dot,
  the double nearest to that decimal number, and \<^verbatim>\<open>$1,234.56\<close> is the double nearest to
  1234.56; for the words \<^verbatim>\<open>inf\<close> and \<^verbatim>\<open>infinity\<close> in any case, also after a plus sign,
  positive infinity, and after a minus sign negative infinity; for the word \<^verbatim>\<open>nan\<close> in
  any case, also after a sign, not-a-number. Nothing is greater than positive infinity.
\<close>

theorem C5_parse_price:
  "parse_price None = PosInf
   \<and> parse_price (Some []) = PosInf
   \<and> (\<forall>s. py_float (strip_symbols s) = None \<longrightarrow> parse_price (Some s) = PosInf)
   \<and> (\<forall>s x. s \<noteq> [] \<and> py_float (strip_symbols s) = Some x \<longrightarrow> parse_price (Some s) = x)
   \<and> (\<forall>s ip. strip_symbols s = ip \<and> ip \<noteq> [] \<and> list_all is_ascii_digit ip \<longrightarrow>
         parse_price (Some s) = decimal_to_double (digits_value ip) 0)
   \<and> (\<forall>s ip fp. strip_symbols s = ip @ dot # fp \<and> ip \<noteq> [] \<and> fp \<noteq> [] \<and>
         list_all is_ascii_digit ip \<and> list_all is_ascii_digit fp \<longrightarrow>
         parse_price (Some s)
           = decimal_to_double (digits_value (ip @ fp)) (- int (length fp)))
   \<and> (\<forall>s ip. strip_symbols s = ip \<and> ip \<noteq> [] \<and> list_all is_decimal ip \<longrightarrow>
         parse_price (Some s) = decimal_to_double (decimal_value ip) 0)
   \<and> (\<forall>s ip fp. strip_symbols s = ip @ dot # fp \<and> ip \<noteq> [] \<and> fp \<noteq> [] \<and>
         list_all is_decimal ip \<and> list_all is_decimal fp \<longrightarrow>
         parse_price (Some s)
           = decimal_to_double (decimal_value (ip @ fp)) (- int (length fp)))
   \<and> parse_price (Some (asc ''$1,234.56'')) = decimal_to_double 123456 (- 2)
   \<and> (\<forall>s w. (strip_symbols s = w \<or> strip_symbols s = 43 # w) \<and>
         (spells ''inf'' w \<or> spells ''infinity'' w) \<longrightarrow> parse_price (Some s) = PosInf)
   \<and> (\<forall>s w. strip_symbols s = 45 # w \<and> (spells ''inf'' w \<or> spells ''infinity'' w) \<longrightarrow>
         parse_price (Some s) = NegInf)
   \<and> (\<forall>s w. (strip_symbols s = w \<or> strip_symbols s = 43 # w \<or> strip_symbols s = 45 # w) \<and>
         spells ''nan'' w \<longrightarrow> parse_price (Some s) = NaN)
   \<and> (\<forall>x. \<not> py_lt PosInf x)"
proof -
  have absent: "parse_price None = PosInf" "parse_price (Some []) = PosInf"
    by (simp_all add: parse_price_def)
  have refused: "\<forall>s. py_float (strip_symbols s) = None \<longrightarrow> parse_price (Some s) = PosInf"
    by (simp add: parse_price_def)
  have accepted: "\<forall>s x. s \<noteq> [] \<and> py_float (strip_symbols s) = Some x \<longrightarrow> parse_price (Some s) = x"
    by (simp add: parse_price_accepted)
  have digits: "\<forall>s ip. strip_symbols s = ip \<and> ip \<noteq> [] \<and> list_all is_ascii_digit ip \<longrightarrow>
         parse_price (Some s) = decimal_to_double (digits_value ip) 0"
    using parse_price_digits by blast
  have fraction: "\<forall>s ip fp. strip_symbols s = ip @ dot # fp \<and> ip \<noteq> [] \<and> fp \<noteq> [] \<and>
         list_all is_ascii_digit ip \<and> list_all is_ascii_digit fp \<longrightarrow>
         parse_price (Some s)
           = decimal_to_double (digits_value (ip @ fp)) (- int (length fp))"
    using parse_price_fraction by blast
  have udigits: "\<forall>s ip. strip_symbols s = ip \<and> ip \<noteq> [] \<and> list_all is_decimal ip \<longrightarrow>
         parse_price (Some s) = decimal_to_double (decimal_value ip) 0"
    using parse_price_decimal_digits by blast
  have ufraction: "\<forall>s ip fp. strip_symbols s = ip @ dot # fp \<and> ip \<noteq> [] \<and> fp \<noteq> [] \<and>
         list_all is_decimal ip \<and> list_all is_decimal fp \<longrightarrow>
         parse_price (Some s)
           = decimal_to_double (decimal_value (ip @ fp)) (- int (length fp))"
    using parse_price_decimal_fraction by blast
  have "parse_price (Some (asc ''$1,234.56''))
          = decimal_to_double (digits_value ([49, 50, 51, 52] @ [53, 54]))
              (- int (length [53, 54 :: nat]))"
    by (rule parse_price_fraction)
      (simp_all add: asc_def strip_symbols_def char_defs is_ascii_digit_def)
  then have example: "parse_price (Some (asc ''$1,234.56'')) = decimal_to_double 123456 (- 2)"
    by (simp add: digits_value_def)
  have inf: "\<forall>s w. (strip_symbols s = w \<or> strip_symbols s = 43 # w) \<and>
         (spells ''inf'' w \<or> spells ''infinity'' w) \<longrightarrow> parse_price (Some s) = PosInf"
    using parse_price_infinity by blast
  have minf: "\<forall>s w. strip_symbols s = 45 # w \<and> (spells ''inf'' w \<or> spells ''infinity'' w) \<longrightarrow>
         parse_price (Some s) = NegInf"
    using parse_price_minus_infinity by blast
  have nan: "\<forall>s w. (strip_symbols s = w \<or> strip_symbols s = 43 # w \<or> strip_symbols s = 45 # w) \<and>
         spells ''nan'' w \<longrightarrow> parse_price (Some s) = NaN"
    using parse_price_nan by blast
  have last: "\<forall>x. \<not> py_lt PosInf x"
  proof
    fix x show "\<not> py_lt PosInf x" by (cases x) simp_all
  qed
  show ?thesis
    by (intro conjI absent refused accepted digits fraction udigits ufraction example
        inf minf nan last)
qed

theorem C5_parse_price_witness:
  "py_float (strip_symbols (asc ''$abc'')) = None
   \<and> parse_price (Some (asc ''$abc'')) = PosInf
   \<and> parse_price (Some (asc ''$1,234'')) = Fin 1234
   \<and> parse_price (Some (asc ''$1,234.56'')) = Fin (2714826150374277 / 2199023255552)
   \<and> py_float (strip_symbols (asc ''$1e3'')) = Some (Fin 1000)
   \<and> parse_price (Some (asc ''$1e3'')) = Fin 1000
   \<and> list_all is_decimal [1633, 1634]
   \<and> parse_price (Some [dollar, 1633, 1634]) = Fin 12
   \<and> parse_price (Some ([euro, 1633, 1634, dot, 1637])) = decimal_to_double 125 (- 1)
   \<and> parse_price (Some (asc ''$Infinity'')) = PosInf
   \<and> parse_price (Some (asc ''+INF'')) = PosInf
   \<and> parse_price (Some (asc ''-inf'')) = NegInf
   \<and> parse_price (Some (asc ''-NaN'')) = NaN"
proof -
  have a: "py_float (strip_symbols (asc ''$abc'')) = None"
    by (simp add: asc_def strip_symbols_def char_defs py_float_def strip_c_space_def
        is_c_space_def is_ascii_digit_def string_to_double_def parse_number_def
        parse_inf_or_nan_def ascii_lower_def)
  have b: "strip_symbols (asc ''$1,234'') = [49, 50, 51, 52]"
    by (simp add: asc_def strip_symbols_def char_defs)
  have d: "list_all is_ascii_digit [49, 50, 51, 52]"
    by (simp add: is_ascii_digit_def)
  have e: "py_float (strip_symbols (asc ''$1e3'')) = Some (decimal_to_double 1 3)"
    by (simp add: asc_def strip_symbols_def char_defs py_float_def strip_c_space_def
        is_c_space_def is_ascii_digit_def string_to_double_def parse_number_def
        parse_exponent_def digits_value_def Let_def)
  have e0: "asc ''$1e3'' \<noteq> []" by (simp add: asc_def)
  have u: "list_all is_decimal [1633, 1634]" "list_all is_decimal [1637]"
    by (simp_all add: is_decimal_def to_decimal_def nd_zeros_def)
  have us: "strip_symbols [dollar, 1633, 1634] = [1633, 1634]"
    "strip_symbols [euro, 1633, 1634, dot, 1637] = [1633, 1634] @ dot # [1637]"
    by (simp_all add: strip_symbols_def char_defs)
  have uv: "decimal_value [1633, 1634] = 12" "decimal_value ([1633, 1634] @ [1637]) = 125"
    by (simp_all add: decimal_value_def digit_val_def to_decimal_def nd_zeros_def)
  have w: "strip_symbols (asc ''$Infinity'') = asc ''Infinity''"
    "strip_symbols (asc ''+INF'') = 43 # asc ''INF''"
    "strip_symbols (asc ''-inf'') = 45 # asc ''inf''"
    "strip_symbols (asc ''-NaN'') = 45 # asc ''NaN''"
    by (simp_all add: asc_def strip_symbols_def char_defs)
  have sp: "spells ''infinity'' (asc ''Infinity'')" "spells ''inf'' (asc ''INF'')"
    "spells ''inf'' (asc ''inf'')" "spells ''nan'' (asc ''NaN'')"
    by (simp_all add: spells_def asc_def ascii_lower_def)
  note c = C5_parse_price
  have "parse_price (Some (asc ''$abc'')) = PosInf"
    using a by (rule c [THEN conjunct2, THEN conjunct2, THEN conjunct1, rule_format])
  moreover have "parse_price (Some (asc ''$1,234'')) = decimal_to_double (digits_value [49, 50, 51, 52]) 0"
    using b d by (intro c [THEN conjunct2, THEN conjunct2, THEN conjunct2, THEN conjunct2, THEN conjunct1, rule_format]) simp_all
  moreover have "digits_value [49, 50, 51, 52] = 1234" by (simp add: digits_value_def)
  moreover have "parse_price (Some (asc ''$1,234.56'')) = decimal_to_double 123456 (- 2)"
    by (rule c [THEN conjunct2, THEN conjunct2, THEN conjunct2, THEN conjunct2, THEN conjunct2, THEN conjunct2, THEN conjunct2, THEN conjunct2, THEN conjunct1, rule_format])
  moreover have "parse_price (Some (asc ''$1e3'')) = decimal_to_double 1 3"
    using e0 e by (intro c [THEN conjunct2, THEN conjunct2, THEN conjunct2, THEN conjunct1, rule_format]) simp
  moreover have "parse_price (Some [dollar, 1633, 1634]) = decimal_to_double (decimal_value [1633, 1634]) 0"
    using us(1) u(1) by (intro c [THEN conjunct2, THEN conjunct2, THEN conjunct2, THEN conjunct2, THEN conjunct2, THEN conjunct2, THEN conjunct1, rule_format]) simp_all
  moreover have "parse_price (Some [euro, 1633, 1634, dot, 1637])
      = decimal_to_double (decimal_value ([1633, 1634] @ [1637])) (- int (length [1637 :: nat]))"
    using us(2) u by (intro c [THEN conjunct2, THEN conjunct2, THEN conjunct2, THEN conjunct2, THEN conjunct2, THEN conjunct2, THEN conjunct2, THEN conjunct1, rule_format]) simp_all
  moreover have "parse_price (Some (asc ''$Infinity'')) = PosInf"
    using w(1) sp(1) by (intro c [THEN conjunct2, THEN conjunct2, THEN conjunct2, THEN conjunct2, THEN conjunct2, THEN conjunct2, THEN conjunct2, THEN conjunct2, THEN conjunct2, THEN conjunct1, rule_format, of _ "asc ''Infinity''"]) simp
  moreover have "parse_price (Some (asc ''+INF'')) = PosInf"
    using w(2) sp(2) by (intro c [THEN conjunct2, THEN conjunct2, THEN conjunct2, THEN conjunct2, THEN conjunct2, THEN conjunct2, THEN conjunct2, THEN conjunct2, THEN conjunct2, THEN conjunct1, rule_format, of _ "asc ''INF''"]) simp
  moreover have "parse_price (Some (asc ''-inf'')) = NegInf"
    using w(3) sp(3) by (intro c [THEN conjunct2, THEN conjunct2, THEN conjunct2, THEN conjunct2, THEN conjunct2, THEN conjunct2, THEN conjunct2, THEN conjunct2, THEN conjunct2, THEN conjunct2, THEN conjunct1, rule_format, of _ "asc ''inf''"]) simp
  moreover have "parse_price (Some (asc ''-NaN'')) = NaN"
    using w(4) sp(4) by (intro c [THEN conjunct2, THEN conjunct2, THEN conjunct2, THEN conjunct2, THEN conjunct2, THEN conjunct2, THEN conjunct2, THEN conjunct2, THEN conjunct2, THEN conjunct2, THEN conjunct2, THEN conjunct1, rule_format, of _ "asc ''NaN''"]) simp
  ultimately show ?thesis
    using a e u(1) uv decimal_to_double_1234_56 decimal_to_double_small by simp
qed

subsection \<open>Sorting and minimum\<close>

lemma rank_inj: "rank x = rank y \<longleftrightarrow> x = y"
  by (cases x; cases y) simp_all

lemma py_lt_rank: "x \<noteq> NaN \<Longrightarrow> y \<noteq> NaN \<Longrightarrow> py_lt x y \<longleftrightarrow> rank x < rank y"
  by (cases x; cases y) simp_all

lemma insort_by_rank:
  "k x \<noteq> NaN \<Longrightarrow> \<forall>y\<in>set ys. k y \<noteq> NaN \<Longrightarrow>
     insort_by k x ys = insort_key (\<lambda>y. rank (k y)) x ys"
  by (induction ys) (auto simp add: py_lt_rank not_less)

lemma set_insort_by: "set (insort_by k x ys) = insert x (set ys)"
  by (induction ys) auto

lemma set_py_sort_by: "set (py_sort_by k xs) = set xs"
  by (induction xs) (simp_all add: py_sort_by_def set_insort_by)

lemma py_sort_by_rank:
  "\<forall>x\<in>set xs. k x \<noteq> NaN \<Longrightarrow> py_sort_by k xs = sort_key (\<lambda>y. rank (k y)) xs"
proof (induction xs)
  case Nil
  then show ?case by (simp add: py_sort_by_def)
next
  case (Cons x xs)
  then have ih: "py_sort_by k xs = sort_key (\<lambda>y. rank (k y)) xs" by simp
  have "\<forall>y\<in>set (py_sort_by k xs). k y \<noteq> NaN"
    using Cons.prems by (simp add: set_py_sort_by)
  then have "insort_by k x (py_sort_by k xs) = insort_key (\<lambda>y. rank (k y)) x (py_sort_by k xs)"
    using Cons.prems by (intro insort_by_rank) simp_all
  then show ?case using ih by (simp add: py_sort_by_def)
qed

lemma sorted_py_sort_by:
  assumes "\<forall>x\<in>set xs. k x \<noteq> NaN"
  shows "sorted_wrt (\<lambda>a b. \<not> py_lt (k b) (k a)) (py_sort_by k xs)"
proof -
  have "sorted (map (\<lambda>y. rank (k y)) (py_sort_by k xs))"
    by (simp add: py_sort_by_rank [OF assms])
  then have s: "sorted_wrt (\<lambda>a b. rank (k a) \<le> rank (k b)) (py_sort_by k xs)"
    by (simp add: sorted_map)
  have nn: "\<forall>y\<in>set (py_sort_by k xs). k y \<noteq> NaN"
    using assms by (simp add: set_py_sort_by)
  show ?thesis
  proof (rule sorted_wrt_mono_rel [OF _ s])
    fix a b
    assume "a \<in> set (py_sort_by k xs)" "b \<in> set (py_sort_by k xs)"
      "rank (k a) \<le> rank (k b)"
    then show "\<not> py_lt (k b) (k a)"
      using nn by (simp add: py_lt_rank not_less)
  qed
qed

lemma stable_py_sort_by:
  assumes "\<forall>x\<in>set xs. k x \<noteq> NaN"
  shows "filter (\<lambda>y. k y = v) (py_sort_by k xs) = filter (\<lambda>y. k y = v) xs"
proof -
  have "filter (\<lambda>y. rank (k y) = rank v) (sort_key (\<lambda>y. rank (k y)) xs)
          = filter (\<lambda>y. rank (k y) = rank v) xs"
    by (rule sort_key_stable)
  then show ?thesis
    by (simp add: py_sort_by_rank [OF assms] rank_inj)
qed

lemma mset_py_sort_by: "mset (py_sort_by k xs) = mset xs"
proof -
  have "mset (insort_by k x ys) = add_mset x (mset ys)" for x ys
    by (induction ys) simp_all
  then show ?thesis
    by (induction xs) (simp_all add: py_sort_by_def)
qed

lemma min_loop_invariant:
  assumes "k best \<noteq> NaN" "\<forall>x\<in>set (p1 @ p2 @ xs). k x \<noteq> NaN"
    and "\<forall>x\<in>set p1. py_lt (k best) (k x)"
    and "\<forall>x\<in>set p2. \<not> py_lt (k x) (k best)"
  shows "\<exists>pre post. p1 @ best # p2 @ xs = pre @ min_loop k best xs # post
           \<and> (\<forall>x\<in>set pre. py_lt (k (min_loop k best xs)) (k x))
           \<and> (\<forall>x\<in>set post. \<not> py_lt (k x) (k (min_loop k best xs)))"
  using assms
proof (induction xs arbitrary: best p1 p2)
  case Nil
  then show ?case by auto
next
  case (Cons x xs)
  show ?case
  proof (cases "py_lt (k x) (k best)")
    case True
    have nx: "k x \<noteq> NaN" using Cons.prems(2) by simp
    have "\<exists>pre post. (p1 @ best # p2) @ x # [] @ xs = pre @ min_loop k x xs # post
           \<and> (\<forall>y\<in>set pre. py_lt (k (min_loop k x xs)) (k y))
           \<and> (\<forall>y\<in>set post. \<not> py_lt (k y) (k (min_loop k x xs)))"
    proof (rule Cons.IH)
      show "k x \<noteq> NaN" by (rule nx)
      show "\<forall>y\<in>set ((p1 @ best # p2) @ [] @ xs). k y \<noteq> NaN"
        using Cons.prems(1,2) by auto
      show "\<forall>y\<in>set (p1 @ best # p2). py_lt (k x) (k y)"
        using True Cons.prems nx by (auto simp add: py_lt_rank)
      show "\<forall>y\<in>set []. \<not> py_lt (k y) (k x)" by simp
    qed
    then show ?thesis using True by simp
  next
    case False
    have "\<exists>pre post. p1 @ best # (p2 @ [x]) @ xs = pre @ min_loop k best xs # post
           \<and> (\<forall>y\<in>set pre. py_lt (k (min_loop k best xs)) (k y))
           \<and> (\<forall>y\<in>set post. \<not> py_lt (k y) (k (min_loop k best xs)))"
    proof (rule Cons.IH)
      show "k best \<noteq> NaN" by (rule Cons.prems(1))
      show "\<forall>y\<in>set (p1 @ (p2 @ [x]) @ xs). k y \<noteq> NaN"
        using Cons.prems(2) by auto
      show "\<forall>y\<in>set p1. py_lt (k best) (k y)" by (rule Cons.prems(3))
      show "\<forall>y\<in>set (p2 @ [x]). \<not> py_lt (k y) (k best)"
        using False Cons.prems(4) by auto
    qed
    then show ?thesis using False by simp
  qed
qed

lemma min_loop_first_minimum:
  assumes "\<forall>x\<in>set (r # rest). k x \<noteq> NaN"
  shows "\<exists>pre post. r # rest = pre @ min_loop k r rest # post
           \<and> (\<forall>x\<in>set pre. py_lt (k (min_loop k r rest)) (k x))
           \<and> (\<forall>x\<in>set post. \<not> py_lt (k x) (k (min_loop k r rest)))"
  using min_loop_invariant [of k r "[]" "[]" rest] assms by simp

subsection \<open>Prices found by the patterns are numbers\<close>

lemma cents_chars: "c \<in> set (cents s) \<Longrightarrow> is_decimal c \<or> c = dot"
  by (induction s rule: cents.induct) (auto split: if_splits)

lemma match_price_at_chars:
  assumes "match_price_at cur s = Some m" "c \<in> set m"
  shows "c = cur \<or> is_decimal c \<or> c = comma \<or> c = dot"
proof (cases s)
  case Nil
  then show ?thesis using assms by simp
next
  case (Cons a list)
  then have m: "m = cur # takeWhile price_class list @ cents (dropWhile price_class list)"
    using assms(1) by (auto split: if_splits)
  then consider "c = cur" | "c \<in> set (takeWhile price_class list)"
    | "c \<in> set (cents (dropWhile price_class list))"
    using assms(2) by auto
  then show ?thesis
  proof cases
    case 1
    then show ?thesis by simp
  next
    case 2
    then have "price_class c" by (rule set_takeWhileD [THEN conjunct2])
    then show ?thesis by (auto simp add: price_class_def)
  next
    case 3
    then show ?thesis using cents_chars by blast
  qed
qed

lemma re_search_price_chars:
  "re_search_price cur s = Some m \<Longrightarrow> c \<in> set m \<Longrightarrow> c = cur \<or> is_decimal c \<or> c = comma \<or> c = dot"
proof (induction s)
  case Nil
  then show ?case by simp
next
  case (Cons a s)
  show ?case
  proof (cases "match_price_at cur (a # s)")
    case None
    then have "re_search_price cur s = Some m" using Cons.prems(1) by simp
    then show ?thesis using Cons.IH Cons.prems(2) by blast
  next
    case (Some m')
    then have "m' = m" using Cons.prems(1) by simp
    then show ?thesis using Some Cons.prems(2) match_price_at_chars by blast
  qed
qed

lemma extract_price_chars:
  assumes "extract_price text = Some m" "c \<in> set (strip_symbols m)"
  shows "is_decimal c \<or> c = dot"
proof -
  have "\<exists>cur \<in> set patterns. re_search_price cur text = Some m"
    using assms(1)
    by (auto simp add: extract_price_def patterns_def split: option.splits)
  then obtain cur where cur: "cur \<in> set patterns" "re_search_price cur text = Some m" by blast
  have "c \<in> set m" "c \<noteq> dollar" "c \<noteq> pound" "c \<noteq> euro" "c \<noteq> comma"
    using assms(2) by (auto simp add: strip_symbols_def)
  then show ?thesis
    using re_search_price_chars [OF cur(2), of c] cur(1) by (auto simp add: patterns_def)
qed

lemma transform_chars:
  assumes "\<forall>c\<in>set s. is_decimal c \<or> c = dot"
  shows "\<forall>c\<in>set (transform_decimal_and_space s). is_ascii_digit c \<or> c = dot"
  using assms
proof (induction s)
  case Nil
  then show ?case by simp
next
  case (Cons a s)
  have a: "is_decimal a \<or> a = dot" using Cons.prems by simp
  have ih: "\<forall>c\<in>set (transform_decimal_and_space s). is_ascii_digit c \<or> c = dot"
    using Cons by simp
  show ?case
  proof (cases "a < 127")
    case True
    then have "is_ascii_digit a \<or> a = dot"
      using a by (auto simp add: is_decimal_low is_ascii_digit_def)
    then show ?thesis using True ih by simp
  next
    case False
    then have d: "is_decimal a" using a by (auto simp add: dot_def)
    then have ns: "\<not> is_space a" using is_space_not_decimal by blast
    from d obtain v where v: "to_decimal a = Some v" by (auto simp add: is_decimal_def)
    then have "is_ascii_digit (48 + v)"
      using to_decimal_less [OF v] by (simp add: is_ascii_digit_def)
    then show ?thesis using False ns v ih by simp
  qed
qed

lemma remove_underscores_set:
  "remove_underscores prev s = Some u \<Longrightarrow> set u \<subseteq> set s"
  by (induction s arbitrary: prev u) (fastforce split: if_splits)+

lemma decimal_to_double_not_nan: "decimal_to_double n e \<noteq> NaN"
  by (simp add: decimal_to_double_def round_double_def Let_def)

lemma parse_number_not_nan: "parse_number s \<noteq> Some NaN"
  by (auto simp add: parse_number_def Let_def decimal_to_double_not_nan split: option.splits)

lemma parse_inf_or_nan_letters:
  "parse_inf_or_nan s = Some x \<Longrightarrow> \<exists>c\<in>set s. \<not> (is_ascii_digit c \<or> c = dot)"
  by (cases s)
    (auto simp add: parse_inf_or_nan_def Let_def asc_def ascii_lower_def is_ascii_digit_def dot_def
      split: if_splits)

lemma py_neg_nan: "py_neg x = NaN \<longleftrightarrow> x = NaN"
  by (cases x) simp_all

lemma string_to_double_not_nan:
  assumes "\<forall>c\<in>set s. is_ascii_digit c \<or> c = dot"
  shows "string_to_double s \<noteq> Some NaN"
proof -
  have nosign: "s \<noteq> [] \<Longrightarrow> hd s \<noteq> 45 \<and> hd s \<noteq> 43"
    using assms by (cases s) (auto simp add: is_ascii_digit_def dot_def)
  have "parse_inf_or_nan s = None"
    using parse_inf_or_nan_letters [of s] assms by (cases "parse_inf_or_nan s") auto
  then show ?thesis
    using nosign parse_number_not_nan [of s]
    by (auto simp add: string_to_double_def Let_def split: option.splits)
qed

lemma py_float_not_nan:
  assumes "\<forall>c\<in>set s. is_decimal c \<or> c = dot"
  shows "py_float s \<noteq> Some NaN"
proof -
  let ?t = "strip_c_space (transform_decimal_and_space s)"
  have "set ?t \<subseteq> set (transform_decimal_and_space s)"
    by (auto simp add: strip_c_space_def dest!: set_dropWhileD)
  then have t: "\<forall>c\<in>set ?t. is_ascii_digit c \<or> c = dot"
    using transform_chars [OF assms] by blast
  show ?thesis
  proof (cases "remove_underscores 0 ?t")
    case None
    then show ?thesis by (simp add: py_float_def Let_def)
  next
    case (Some u)
    then have "\<forall>c\<in>set u. is_ascii_digit c \<or> c = dot"
      using remove_underscores_set [OF Some] t by blast
    then show ?thesis
      using Some string_to_double_not_nan by (simp add: py_float_def Let_def)
  qed
qed

lemma parse_price_match_not_nan: "parse_price (extract_price text) \<noteq> NaN"
proof (cases "extract_price text")
  case None
  then show ?thesis by (simp add: parse_price_def)
next
  case (Some m)
  have "py_float (strip_symbols m) \<noteq> Some NaN"
    using extract_price_chars [OF Some] by (intro py_float_not_nan) blast
  then show ?thesis
    using Some by (auto simp add: parse_price_def split: option.splits)
qed

subsection \<open>The extraction loop, one hit at a time\<close>

lemma FlightResult_spec:
  "FlightResult t u d p w =
     (if startswith u (asc ''http://'') \<or> startswith u (asc ''https://'')
      then Inr \<lparr>title = t, url = u, description = d, price = p, result_website = w\<rparr>
      else Inl [InvalidURL u])"
  by (simp add: FlightResult_def validate_url_def)

lemma parse_loop_step:
  "parse_loop ucd cfg (it # items) acc =
     (case hit_step ucd cfg it of
        Inl e \<Rightarrow> Inl e
      | Inr None \<Rightarrow> parse_loop ucd cfg items acc
      | Inr (Some r) \<Rightarrow> parse_loop ucd cfg items (acc @ [r]))"
proof (cases it)
  case NonObject
  then show ?thesis by (simp add: hit_step_def)
next
  case (Object h)
  show ?thesis
  proof (cases "falsy (get_field (hit_url h))")
    case True
    then show ?thesis using Object by (simp add: hit_step_def)
  next
    case False
    then show ?thesis
      using Object
      by (cases "get_field (hit_title h)"; cases "get_field (hit_description h)";
          cases "get_field (hit_url h)")
        (simp_all add: hit_step_def spec_extract_hit_def FlightResult_spec Let_def not_less)
  qed
qed

lemma spec_extract_hit_price:
  "spec_extract_hit ucd cfg t d u = Some r \<Longrightarrow> price r = extract_price (t @ asc '' '' @ d)"
  by (auto simp add: spec_extract_hit_def split: if_splits)

lemma hit_step_price_extracted:
  "hit_step ucd cfg it = Inr (Some r) \<Longrightarrow> \<exists>text. price r = extract_price text"
  by (auto simp add: hit_step_def split: item.splits if_splits jval.splits
      dest!: spec_extract_hit_price)

lemma parse_loop_prices:
  "parse_loop ucd cfg items acc = Inr rs \<Longrightarrow>
   \<forall>r\<in>set acc. \<exists>text. price r = extract_price text \<Longrightarrow>
   \<forall>r\<in>set rs. \<exists>text. price r = extract_price text"
proof (induction items arbitrary: acc)
  case Nil
  then show ?case by simp
next
  case (Cons it items)
  show ?case
  proof (cases "hit_step ucd cfg it")
    case (Inl e)
    then show ?thesis using Cons.prems(1) by (simp add: parse_loop_step)
  next
    case (Inr o')
    show ?thesis
    proof (cases o')
      case None
      then show ?thesis using Cons Inr by (simp add: parse_loop_step)
    next
      case (Some r)
      then have "\<forall>x\<in>set (acc @ [r]). \<exists>text. price x = extract_price text"
        using Cons.prems(2) Inr hit_step_price_extracted by auto
      moreover have "parse_loop ucd cfg items (acc @ [r]) = Inr rs"
        using Cons.prems(1) Inr Some by (simp add: parse_loop_step)
      ultimately show ?thesis using Cons.IH by blast
    qed
  qed
qed

lemma parse_results_not_nan:
  assumes "parse_results ucd data cfg = Inr rs" "r \<in> set rs"
  shows "parse_price (price r) \<noteq> NaN"
proof -
  obtain items where "data = Results items" "parse_loop ucd cfg items [] = Inr rs"
    using assms(1) by (cases data) (simp_all add: parse_results_def)
  then have "\<exists>text. price r = extract_price text"
    using parse_loop_prices [of ucd cfg items "[]" rs] assms(2) by simp
  then show ?thesis using parse_price_match_not_nan by auto
qed

subsection \<open>Ranking and the single-site outcome\<close>

lemma ranker_sorted_stable:
  assumes "\<forall>r\<in>set rs. parse_price (price r) \<noteq> NaN"
  shows "\<exists>priced.
           final_results rs = take 10 (priced @ filter (\<lambda>r. \<not> has_price r) rs)
         \<and> mset priced = mset (filter has_price rs)
         \<and> sorted_wrt (\<lambda>a b. \<not> py_lt (parse_price (price b)) (parse_price (price a))) priced
         \<and> (\<forall>v. filter (\<lambda>r. parse_price (price r) = v) priced
                  = filter (\<lambda>r. parse_price (price r) = v) (filter has_price rs))
         \<and> cheapest_of rs = (case priced of [] \<Rightarrow> None | r # rest \<Rightarrow> Some r)"
proof -
  let ?k = "\<lambda>x. parse_price (price x)"
  let ?P = "results_with_price rs"
  have nn: "\<forall>r\<in>set (filter has_price rs). ?k r \<noteq> NaN" using assms by simp
  have "final_results rs = take 10 (?P @ filter (\<lambda>r. \<not> has_price r) rs)"
    by (simp add: final_results_def results_without_price_def)
  moreover have "mset ?P = mset (filter has_price rs)"
    unfolding results_with_price_def by (rule mset_py_sort_by)
  moreover have "sorted_wrt (\<lambda>a b. \<not> py_lt (?k b) (?k a)) ?P"
    unfolding results_with_price_def using nn by (rule sorted_py_sort_by)
  moreover have "filter (\<lambda>r. ?k r = v) ?P = filter (\<lambda>r. ?k r = v) (filter has_price rs)" for v
    unfolding results_with_price_def using nn by (rule stable_py_sort_by)
  moreover have "cheapest_of rs = (case ?P of [] \<Rightarrow> None | r # rest \<Rightarrow> Some r)"
    by (simp add: cheapest_of_def)
  ultimately show ?thesis by blast
qed

text \<open>
  C2. For every list \<open>rs\<close> of extracted results, the final list is the priced results
  in a stable ascending order of their numeric price (a rearrangement \<open>priced\<close> of the
  priced results in which no result has a smaller price than one before it, and in
  which the results of any one numeric price keep the order they have in \<open>rs\<close>),
  followed by the unpriced results in their order in \<open>rs\<close>, cut to the first 10
  entries; and the cheapest result is the first of \<open>priced\<close>, or none when \<open>priced\<close> is
  empty.
\<close>

theorem C2_ranker:
  assumes "parse_results ucd data site_config = Inr rs"
  shows "\<exists>priced.
           final_results rs = take 10 (priced @ filter (\<lambda>r. \<not> has_price r) rs)
         \<and> mset priced = mset (filter has_price rs)
         \<and> sorted_wrt (\<lambda>a b. \<not> py_lt (parse_price (price b)) (parse_price (price a))) priced
         \<and> (\<forall>v. filter (\<lambda>r. parse_price (price r) = v) priced
                  = filter (\<lambda>r. parse_price (price r) = v) (filter has_price rs))
         \<and> cheapest_of rs = (case priced of [] \<Rightarrow> None | r # rest \<Rightarrow> Some r)"
  using assms parse_results_not_nan ranker_sorted_stable by blast

lemma final_results_length: "length (final_results rs) \<le> 10"
  by (simp add: final_results_def)

lemma cheapest_of_head:
  assumes "cheapest_of rs = Some c"
  shows "\<exists>rest. final_results rs = c # rest" "has_price c"
proof -
  obtain rest where p: "results_with_price rs = c # rest"
    using assms by (auto simp add: cheapest_of_def split: list.splits)
  then show "\<exists>rest. final_results rs = c # rest"
    by (simp add: final_results_def)
  have "c \<in> set (results_with_price rs)" using p by simp
  then show "has_price c"
    by (simp add: results_with_price_def set_py_sort_by)
qed

text \<open>
  C10. Every outcome \<open>r\<close> that \<open>search_flights\<close> returns has \<open>count r\<close> equal to the
  length of its results, at most 10 results, and, when it has a cheapest result, that
  result is the first of the results (so it is one of them) and has a price.
\<close>

theorem C10_outcome_invariant:
  assumes "search_flights ucd api params = Inr r"
  shows "count r = length (results r)
         \<and> length (results r) \<le> 10
         \<and> (\<forall>c. cheapest r = Some c \<longrightarrow>
               (\<exists>rest. results r = c # rest) \<and> c \<in> set (results r) \<and> price c \<noteq> None)"
proof -
  obtain rs q w where r: "r = \<lparr>response_website = w, query = q, results = final_results rs,
      cheapest = cheapest_of rs, count = length (final_results rs)\<rparr>"
    using assms
    by (auto simp add: search_flights_def Let_def
        split: if_splits option.splits api_reply.splits sum.splits)
  have "(\<exists>rest. final_results rs = c # rest) \<and> c \<in> set (final_results rs) \<and> price c \<noteq> None"
    if "cheapest_of rs = Some c" for c
    using cheapest_of_head [OF that] by (auto simp add: has_price_def split: option.splits)
  then show ?thesis
    using r final_results_length by simp
qed


lemma price_200: "parse_price (Some [36, 50, 48, 48]) = Fin 200"
proof -
  have "parse_price (Some [36, 50, 48, 48]) = decimal_to_double (digits_value [50, 48, 48]) 0"
    by (rule parse_price_digits) (simp_all add: strip_symbols_def char_defs is_ascii_digit_def)
  then show ?thesis
    by (simp add: digits_value_def decimal_to_double_def round_double_def ilog2_def
        round_half_even_def Let_def)
qed

lemma price_500: "parse_price (Some [36, 53, 48, 48]) = Fin 500"
proof -
  have "parse_price (Some [36, 53, 48, 48]) = decimal_to_double (digits_value [53, 48, 48]) 0"
    by (rule parse_price_digits) (simp_all add: strip_symbols_def char_defs is_ascii_digit_def)
  then show ?thesis
    by (simp add: digits_value_def decimal_to_double_def round_double_def ilog2_def
        round_half_even_def Let_def)
qed

lemmas eval_hit = parse_results_def parse_loop_step hit_step_def hit_def get_field_def
  spec_extract_hit_def py_lower_def ascii_tables_def ascii_lower_def startswith_def asc_def
  extract_price_def patterns_def char_defs price_class_def is_decimal_low

lemma ranking_example_results:
  "parse_results ascii_tables ranking_example skyscanner_config =
     Inr [\<lparr>title = asc ''A $500'', url = asc ''https://skyscanner.com'', description = asc ''p'',
            price = Some (asc ''$500''), result_website = asc ''Skyscanner''\<rparr>,
          \<lparr>title = asc ''B $200'', url = asc ''https://skyscanner.com'', description = asc ''q'',
            price = Some (asc ''$200''), result_website = asc ''Skyscanner''\<rparr>,
          \<lparr>title = asc ''C'', url = asc ''https://skyscanner.com'', description = asc ''r'',
            price = None, result_website = asc ''Skyscanner''\<rparr>,
          \<lparr>title = asc ''D $200'', url = asc ''https://skyscanner.com'', description = asc ''s'',
            price = Some (asc ''$200''), result_website = asc ''Skyscanner''\<rparr>]"
  by (simp add: ranking_example_def skyscanner_config_def eval_hit)


theorem C2_ranker_witness:
  "\<exists>rs. parse_results ascii_tables ranking_example skyscanner_config = Inr rs
     \<and> map title (final_results rs) = [asc ''B $200'', asc ''D $200'', asc ''A $500'', asc ''C'']
     \<and> map_option title (cheapest_of rs) = Some (asc ''B $200'')
     \<and> (\<exists>priced.
           final_results rs = take 10 (priced @ filter (\<lambda>r. \<not> has_price r) rs)
         \<and> mset priced = mset (filter has_price rs)
         \<and> sorted_wrt (\<lambda>a b. \<not> py_lt (parse_price (price b)) (parse_price (price a))) priced
         \<and> (\<forall>v. filter (\<lambda>r. parse_price (price r) = v) priced
                  = filter (\<lambda>r. parse_price (price r) = v) (filter has_price rs))
         \<and> cheapest_of rs = (case priced of [] \<Rightarrow> None | r # rest \<Rightarrow> Some r))"
proof -
  let ?rs = "[\<lparr>title = asc ''A $500'', url = asc ''https://skyscanner.com'', description = asc ''p'',
            price = Some (asc ''$500''), result_website = asc ''Skyscanner''\<rparr>,
          \<lparr>title = asc ''B $200'', url = asc ''https://skyscanner.com'', description = asc ''q'',
            price = Some (asc ''$200''), result_website = asc ''Skyscanner''\<rparr>,
          \<lparr>title = asc ''C'', url = asc ''https://skyscanner.com'', description = asc ''r'',
            price = None, result_website = asc ''Skyscanner''\<rparr>,
          \<lparr>title = asc ''D $200'', url = asc ''https://skyscanner.com'', description = asc ''s'',
            price = Some (asc ''$200''), result_website = asc ''Skyscanner''\<rparr>]"
  have h: "parse_results ascii_tables ranking_example skyscanner_config = Inr ?rs"
    by (rule ranking_example_results)
  have sorted: "results_with_price ?rs = [?rs ! 1, ?rs ! 3, ?rs ! 0]"
    by (simp add: results_with_price_def has_price_def py_sort_by_def asc_def price_200 price_500)
  have order: "map title (final_results ?rs)
                 = [asc ''B $200'', asc ''D $200'', asc ''A $500'', asc ''C'']"
    apply (simp add: final_results_def sorted results_without_price_def has_price_def)
    apply (simp add: asc_def)
    done
  have first: "map_option title (cheapest_of ?rs) = Some (asc ''B $200'')"
    by (simp add: cheapest_of_def sorted)
  show ?thesis
    using h order first C2_ranker [OF h]
    by - (rule exI [of _ ?rs], (rule conjI, assumption)+, assumption)
qed

lemma example_query:
  "format_query (query_template skyscanner_config) (example_params\<lparr>website := SKYSCANNER\<rparr>)
     = asc ''site:skyscanner.com direct flights JFK to LHR 2099-01-05''"
  by (simp add: format_query_def skyscanner_config_def example_params_def asc_def)

lemma WEBSITES_SKYSCANNER: "WEBSITES SKYSCANNER = Some skyscanner_config"
  by (simp add: WEBSITES_def skyscanner_config_def)

lemma example_search_skyscanner:
  "search_flights ascii_tables example_api (example_params\<lparr>website := SKYSCANNER\<rparr>) =
     Inr \<lparr>response_website = asc ''Skyscanner'',
          query = asc ''site:skyscanner.com direct flights JFK to LHR 2099-01-05'',
          results = [\<lparr>title = asc ''Fly $300'', url = asc ''https://skyscanner.com/a'',
                      description = asc ''x'', price = Some (asc ''$300''),
                      result_website = asc ''Skyscanner''\<rparr>],
          cheapest = Some \<lparr>title = asc ''Fly $300'', url = asc ''https://skyscanner.com/a'',
                      description = asc ''x'', price = Some (asc ''$300''),
                      result_website = asc ''Skyscanner''\<rparr>,
          count = 1\<rparr>"
proof -
  have api: "example_api (asc ''site:skyscanner.com direct flights JFK to LHR 2099-01-05'')
               = Json (Results [hit ''Fly $300'' ''x'' ''https://skyscanner.com/a''])"
    by (simp add: example_api_def startswith_def asc_def)
  have rs: "parse_results ascii_tables (Results [hit ''Fly $300'' ''x'' ''https://skyscanner.com/a''])
              skyscanner_config
            = Inr [\<lparr>title = asc ''Fly $300'', url = asc ''https://skyscanner.com/a'',
                      description = asc ''x'', price = Some (asc ''$300''),
                      result_website = asc ''Skyscanner''\<rparr>]"
    by (simp add: skyscanner_config_def eval_hit)
  show ?thesis
    apply (simp add: search_flights_def WEBSITES_SKYSCANNER example_query api rs)
    apply (simp add: final_results_def results_with_price_def results_without_price_def
        cheapest_of_def has_price_def py_sort_by_def asc_def skyscanner_config_def)
    done
qed

theorem C10_outcome_invariant_witness:
  "\<exists>r c. search_flights ascii_tables example_api (example_params\<lparr>website := SKYSCANNER\<rparr>) = Inr r
     \<and> cheapest r = Some c
     \<and> count r = length (results r)
     \<and> length (results r) \<le> 10
     \<and> (\<forall>c. cheapest r = Some c \<longrightarrow>
           (\<exists>rest. results r = c # rest) \<and> c \<in> set (results r) \<and> price c \<noteq> None)"
proof -
  let ?c = "\<lparr>title = asc ''Fly $300'', url = asc ''https://skyscanner.com/a'',
             description = asc ''x'', price = Some (asc ''$300''),
             result_website = asc ''Skyscanner''\<rparr>"
  let ?r = "\<lparr>response_website = asc ''Skyscanner'',
             query = asc ''site:skyscanner.com direct flights JFK to LHR 2099-01-05'',
             results = [?c], cheapest = Some ?c, count = 1\<rparr>"
  have h: "search_flights ascii_tables example_api (example_params\<lparr>website := SKYSCANNER\<rparr>)
             = Inr ?r"
    by (rule example_search_skyscanner)
  have c: "cheapest ?r = Some ?c" by simp
  show ?thesis
    using h c C10_outcome_invariant [OF h]
    by - (rule exI [of _ ?r], rule exI [of _ ?c], (rule conjI, assumption)+, assumption)
qed

subsection \<open>Multi-site comparison\<close>

lemma FlightSearchParams_valid:
  "params_valid ucd today p \<Longrightarrow>
     FlightSearchParams ucd today (origin p) (destination p) (depart_date p) site
       = Inr (p\<lparr>website := site\<rparr>)"
  by (simp add: params_valid_def FlightSearchParams_def)

lemma collect_results_valid:
  assumes "params_valid ucd today p"
  shows "collect_results ucd api today p sites acc
           = Inr (acc @ List.map_filter (retained ucd api p) sites)"
proof (induction sites arbitrary: acc)
  case Nil
  then show ?case by (simp add: List.map_filter_simps)
next
  case (Cons site sites)
  show ?case
    by (cases "search_flights ucd api (p\<lparr>website := site\<rparr>)")
      (auto simp add: FlightSearchParams_valid [OF assms] Cons.IH retained_def
        List.map_filter_simps)
qed

lemma map_filter_length: "length (List.map_filter f xs) \<le> length xs"
  by (simp add: List.map_filter_def)

lemma search_flights_priced:
  assumes "search_flights ucd api sp = Inr r" "cheapest r \<noteq> None"
  shows "priced_outcome r"
proof -
  obtain rs data cfg where rs: "parse_results ucd data cfg = Inr rs" "cheapest r = cheapest_of rs"
    using assms(1)
    by (auto simp add: search_flights_def Let_def
        split: if_splits option.splits api_reply.splits sum.splits)
  obtain c where c: "cheapest_of rs = Some c" using assms(2) rs(2) by auto
  then obtain rest where "results_with_price rs = c # rest"
    by (auto simp add: cheapest_of_def split: list.splits)
  then have "c \<in> set (results_with_price rs)" by simp
  then have m: "c \<in> set rs" "has_price c"
    by (simp_all add: results_with_price_def set_py_sort_by)
  then obtain p where p: "price c = Some p" by (auto simp add: has_price_def split: option.splits)
  have "parse_price (price c) \<noteq> NaN" using parse_results_not_nan [OF rs(1) m(1)] .
  then show ?thesis using rs(2) c p by (auto simp add: priced_outcome_def)
qed

lemma retained_priced: "retained ucd api p site = Some r \<Longrightarrow> priced_outcome r"
  by (auto simp add: retained_def split: sum.splits if_splits intro: search_flights_priced)

lemma map_filter_retained_priced:
  "r \<in> set (List.map_filter (retained ucd api p) sites) \<Longrightarrow> priced_outcome r"
  by (auto simp add: List.map_filter_def dest: retained_priced)

lemma priced_key: "priced_outcome r \<Longrightarrow> cheapest_key r \<noteq> None \<and> price_key r \<noteq> NaN"
  by (auto simp add: priced_outcome_def cheapest_key_def price_key_def)

lemma find_best_priced:
  assumes "\<forall>r\<in>set rs. priced_outcome r" "rs \<noteq> []"
  shows "\<exists>b pre post. find_best rs = Inr b \<and> rs = pre @ b # post
           \<and> (\<forall>x\<in>set pre. py_lt (price_key b) (price_key x))
           \<and> (\<forall>x\<in>set post. \<not> py_lt (price_key x) (price_key b))"
proof -
  obtain r rest where rs: "rs = r # rest" using assms(2) by (cases rs) auto
  have nn: "\<forall>x\<in>set (r # rest). price_key x \<noteq> NaN"
    using assms(1) rs priced_key by blast
  have "\<not> list_ex (\<lambda>x. cheapest_key x = None) rs"
    using assms(1) priced_key by (auto simp add: list_ex_iff)
  then have "find_best rs = Inr (min_loop price_key r rest)"
    using rs by (simp add: find_best_def)
  then show ?thesis
    using min_loop_first_minimum [OF nn] rs by blast
qed

lemma build_rows_priced:
  assumes "\<forall>r\<in>set rs. priced_outcome r"
  shows "\<exists>rows. build_rows b rs acc = Inr (acc @ rows) \<and> list_all2 (is_row_of b) rows rs"
  using assms
proof (induction rs arbitrary: acc)
  case Nil
  then show ?case by simp
next
  case (Cons r rs)
  then obtain c p where cp: "cheapest r = Some c" "price c = Some p"
    by (auto simp add: priced_outcome_def)
  let ?row = "\<lparr>item_website = response_website r, cheapest_price = p, item_url = url c,
               is_best = (response_website r = response_website b)\<rparr>"
  obtain rows where rows: "build_rows b rs (acc @ [?row]) = Inr ((acc @ [?row]) @ rows)"
    "list_all2 (is_row_of b) rows rs"
    using Cons.IH [of "acc @ [?row]"] Cons.prems by auto
  have "is_row_of b ?row r" using cp by (simp add: is_row_of_def)
  then show ?case
    using rows cp by (intro exI [of _ "?row # rows"]) simp
qed

lemma list_all2_pick:
  "list_all2 P xs ys \<Longrightarrow> x \<in> set xs \<Longrightarrow> \<exists>y\<in>set ys. P x y"
  by (induction rule: list_all2_induct) auto

lemma row_key:
  "list_all2 (is_row_of b) rows rs \<Longrightarrow> \<forall>r\<in>set rs. priced_outcome r \<Longrightarrow>
     \<forall>row\<in>set rows. parse_price (Some (cheapest_price row)) \<noteq> NaN"
proof (induction rule: list_all2_induct)
  case Nil
  then show ?case by simp
next
  case (Cons row rows r rs)
  then show ?case by (auto simp add: is_row_of_def priced_outcome_def)
qed

lemma compare_results_priced:
  assumes "\<forall>r\<in>set rs. priced_outcome r" "rs \<noteq> []" "length rs \<le> 3"
  shows "\<exists>resp b c p pre post rows.
           compare_results rs = Success resp
         \<and> sites_checked resp = length rs
         \<and> all_results resp = rs
         \<and> rs = pre @ b # post
         \<and> (\<forall>x\<in>set pre. py_lt (price_key b) (price_key x))
         \<and> (\<forall>x\<in>set post. \<not> py_lt (price_key x) (price_key b))
         \<and> cheapest b = Some c \<and> price c = Some p
         \<and> best_deal resp = \<lparr>deal_website = response_website b, deal_price = p,
                               deal_url = url c, deal_title = title c\<rparr>
         \<and> list_all2 (is_row_of b) rows rs
         \<and> mset (comparison resp) = mset rows
         \<and> sorted_wrt (\<lambda>x y. \<not> py_lt (parse_price (Some (cheapest_price y)))
                                       (parse_price (Some (cheapest_price x))))
                       (comparison resp)
         \<and> (\<forall>row\<in>set (comparison resp).
               is_best row \<longleftrightarrow> item_website row = deal_website (best_deal resp))"
proof -
  obtain b pre post where b: "find_best rs = Inr b" "rs = pre @ b # post"
    "\<forall>x\<in>set pre. py_lt (price_key b) (price_key x)"
    "\<forall>x\<in>set post. \<not> py_lt (price_key x) (price_key b)"
    using find_best_priced [OF assms(1,2)] by blast
  have "b \<in> set rs" using b(2) by simp
  then obtain c p where cp: "cheapest b = Some c" "price c = Some p"
    using assms(1) by (auto simp add: priced_outcome_def)
  obtain rows where rows: "build_rows b rs [] = Inr rows" "list_all2 (is_row_of b) rows rs"
    using build_rows_priced [OF assms(1), of b "[]"] by auto
  let ?k = "\<lambda>x. parse_price (Some (cheapest_price x))"
  let ?deal = "\<lparr>deal_website = response_website b, deal_price = p,
                 deal_url = url c, deal_title = title c\<rparr>"
  let ?resp = "\<lparr>sites_checked = length rs, comparison = py_sort_by ?k rows,
                 best_deal = ?deal, all_results = rs\<rparr>"
  have res: "compare_results rs = Success ?resp"
    using assms(2,3) b(1) rows(1) cp by (simp add: compare_results_def BestDeal_def)
  have nn: "\<forall>row\<in>set rows. ?k row \<noteq> NaN" using row_key [OF rows(2) assms(1)] .
  have srt: "sorted_wrt (\<lambda>x y. \<not> py_lt (?k y) (?k x)) (py_sort_by ?k rows)"
    using nn by (rule sorted_py_sort_by)
  have flag: "is_best row \<longleftrightarrow> item_website row = response_website b" if rowin: "row \<in> set rows" for row
  proof -
    obtain r where "is_row_of b row r"
      using list_all2_pick [OF rows(2) rowin] by blast
    then show ?thesis by (auto simp add: is_row_of_def)
  qed
  show ?thesis
    apply (rule exI [of _ ?resp], rule exI [of _ b], rule exI [of _ c], rule exI [of _ p],
        rule exI [of _ pre], rule exI [of _ post], rule exI [of _ rows])
    using res b(2,3,4) cp rows(2) srt flag
    apply (simp add: mset_py_sort_by set_py_sort_by)
    done
qed

lemma map_filter_empty: "List.map_filter f xs = [] \<longleftrightarrow> (\<forall>x\<in>set xs. f x = None)"
  by (induction xs) (auto simp add: List.map_filter_simps split: option.splits)

lemma search_all_sites_valid:
  assumes "params_valid ucd today p"
  shows "search_all_sites ucd api today p
           = compare_results (List.map_filter (retained ucd api p) sites_to_check)"
  by (simp add: search_all_sites_def collect_results_valid [OF assms])

text \<open>
  C1. When the parameters validate and \<open>rs\<close>, the list of the retained outcomes in
  the order Skyscanner, Google Flights, Booking.com, is not empty, the comparison
  succeeds with a response \<open>resp\<close> such that: the best deal \<open>b\<close> is a retained outcome
  whose numeric cheapest price is less than that of every outcome before it in \<open>rs\<close>
  and not more than that of any outcome after it (the minimum, the first one among
  equals), and the summary of the best deal is taken from it; there is one row for
  every retained outcome (\<open>rows\<close>, in the order of \<open>rs\<close>), with the site, the price
  text and the URL of the cheapest result of the outcome; the comparison is a
  rearrangement of these rows in ascending order of the numeric parse of the price
  text; the flag of a row is true exactly when the site of the row is the site of the
  best deal; and \<open>sites_checked\<close> is the number of retained outcomes.
\<close>

theorem C1_comparison:
  assumes "params_valid ucd today p"
    and "rs = List.map_filter (retained ucd api p) sites_to_check"
    and "rs \<noteq> []"
  shows "\<exists>resp b c pr pre post rows.
           search_all_sites ucd api today p = Success resp
         \<and> sites_checked resp = length rs
         \<and> all_results resp = rs
         \<and> rs = pre @ b # post
         \<and> (\<forall>x\<in>set pre. py_lt (price_key b) (price_key x))
         \<and> (\<forall>x\<in>set post. \<not> py_lt (price_key x) (price_key b))
         \<and> cheapest b = Some c \<and> price c = Some pr
         \<and> best_deal resp = \<lparr>deal_website = response_website b, deal_price = pr,
                               deal_url = url c, deal_title = title c\<rparr>
         \<and> list_all2 (is_row_of b) rows rs
         \<and> mset (comparison resp) = mset rows
         \<and> sorted_wrt (\<lambda>x y. \<not> py_lt (parse_price (Some (cheapest_price y)))
                                       (parse_price (Some (cheapest_price x))))
                       (comparison resp)
         \<and> (\<forall>row\<in>set (comparison resp).
               is_best row \<longleftrightarrow> item_website row = deal_website (best_deal resp))"
proof -
  have "\<forall>r\<in>set rs. priced_outcome r"
    using assms(2) map_filter_retained_priced by blast
  moreover have "length rs \<le> 3"
    using map_filter_length [of "retained ucd api p" sites_to_check] assms(2)
    by (simp add: sites_to_check_def)
  ultimately show ?thesis
    using compare_results_priced [of rs] assms(3)
    unfolding search_all_sites_valid [OF assms(1)] assms(2) [symmetric]
    by blast
qed

text \<open>
  C6. When the parameters validate: a site whose search fails or finds no priced
  result contributes nothing, the outcomes of a successful comparison being exactly
  the retained ones; the comparison fails exactly when none of the three sites
  Skyscanner, Google Flights and Booking.com contributes an outcome, and then the
  failure is \<open>NoResultsAnySite\<close> with the names of the three sites; and the
  comparison raises no exception.
\<close>

theorem C6_no_results:
  assumes "params_valid ucd today p"
  shows "(search_all_sites ucd api today p
            = Failure (NoResultsAnySite [asc ''Skyscanner'', asc ''Google Flights'',
                                         asc ''Booking.com''])
          \<longleftrightarrow> (\<forall>site\<in>set sites_to_check. retained ucd api p site = None))
       \<and> ((\<exists>e. search_all_sites ucd api today p = Failure e)
          \<longleftrightarrow> (\<forall>site\<in>set sites_to_check. retained ucd api p site = None))
       \<and> (\<forall>e. search_all_sites ucd api today p \<noteq> Raised e)
       \<and> (\<forall>resp. search_all_sites ucd api today p = Success resp \<longrightarrow>
             all_results resp = List.map_filter (retained ucd api p) sites_to_check)
       \<and> (\<forall>site. retained ucd api p site = None \<longleftrightarrow>
             (case search_flights ucd api (p\<lparr>website := site\<rparr>) of
                Inl e \<Rightarrow> True
              | Inr r \<Rightarrow> cheapest r = None))
       \<and> sites_to_check = [SKYSCANNER, GOOGLE, BOOKING]"
proof -
  let ?rs = "List.map_filter (retained ucd api p) sites_to_check"
  let ?none = "\<forall>site\<in>set sites_to_check. retained ucd api p site = None"
  have eq: "search_all_sites ucd api today p = compare_results ?rs"
    by (rule search_all_sites_valid [OF assms])
  have none: "?rs = [] \<longleftrightarrow> ?none" by (rule map_filter_empty)
  have empty: "compare_results [] = Failure (NoResultsAnySite [asc ''Skyscanner'',
      asc ''Google Flights'', asc ''Booking.com''])"
    by (simp add: compare_results_def)
  have succ: "\<exists>resp. compare_results ?rs = Success resp \<and> all_results resp = ?rs" if "?rs \<noteq> []"
  proof -
    have "\<forall>r\<in>set ?rs. priced_outcome r" using map_filter_retained_priced by blast
    moreover have "length ?rs \<le> 3"
      using map_filter_length [of "retained ucd api p" sites_to_check]
      by (simp add: sites_to_check_def)
    ultimately show ?thesis using compare_results_priced [of ?rs] that by blast
  qed
  have ret: "retained ucd api p site = None \<longleftrightarrow>
             (case search_flights ucd api (p\<lparr>website := site\<rparr>) of
                Inl e \<Rightarrow> True
              | Inr r \<Rightarrow> cheapest r = None)" for site
    by (simp add: retained_def split: sum.splits)
  show ?thesis
  proof (cases "?rs = []")
    case True
    then show ?thesis using eq none empty ret by (simp add: sites_to_check_def)
  next
    case False
    then obtain resp where "compare_results ?rs = Success resp" "all_results resp = ?rs"
      using succ by blast
    then show ?thesis using False eq none ret by (simp add: sites_to_check_def)
  qed
qed

lemma collect_results_fields:
  assumes "origin p = origin p'" "destination p = destination p'" "depart_date p = depart_date p'"
  shows "collect_results ucd api today p sites acc = collect_results ucd api today p' sites acc"
  by (induction sites arbitrary: acc) (simp_all add: assms split: sum.splits)

text \<open>
  C9. For two parameter values with the same origin, destination and departure date,
  whatever their \<open>website\<close> fields, \<open>search_all_sites\<close> builds the same parameters
  for the three sites Skyscanner, Google Flights and Booking.com, in that order, and,
  with the same service, returns the same outcome.
\<close>

theorem C9_website_ignored:
  assumes "origin p = origin p'" "destination p = destination p'" "depart_date p = depart_date p'"
  shows "search_all_sites ucd api today p = search_all_sites ucd api today p'
       \<and> map (FlightSearchParams ucd today (origin p) (destination p) (depart_date p))
             sites_to_check
         = map (FlightSearchParams ucd today (origin p') (destination p') (depart_date p'))
             sites_to_check
       \<and> sites_to_check = [SKYSCANNER, GOOGLE, BOOKING]"
proof -
  have "search_all_sites ucd api today p = search_all_sites ucd api today p'"
    by (simp add: search_all_sites_def collect_results_fields [OF assms])
  then show ?thesis
    by (simp add: assms sites_to_check_def)
qed

subsection \<open>The comparison on the example of the specification\<close>

lemma example_params_valid: "params_valid ascii_tables example_today example_params"
  by (simp add: params_valid_def example_params_def example_today_def airport_field_def
      is_surrogate_def
      validate_airport_code_def py_strip_def py_upper_def ascii_upper_def is_space_def
      match_airport_def is_upper_letter_def asc_def
      validate_date_def strptime_ymd_def match_ymd_def match_year_def month_alts_def
      day_alts_def valid_date_def days_in_month_def is_leap_def date_less_def
      to_decimal_def nd_zeros_def)

lemmas eval_search = retained_def search_flights_def WEBSITES_def format_query_def
  example_params_def example_api_def eval_hit final_results_def results_with_price_def
  results_without_price_def cheapest_of_def has_price_def py_sort_by_def

lemma retained_skyscanner:
  "retained ascii_tables example_api example_params SKYSCANNER = Some skyscanner_outcome"
  by (simp add: eval_search skyscanner_outcome_def)

lemma retained_google:
  "retained ascii_tables example_api example_params GOOGLE = Some google_outcome"
  by (simp add: eval_search google_outcome_def)

lemma retained_booking:
  "retained ascii_tables example_api example_params BOOKING = None"
  by (simp add: eval_search)

lemma example_retained:
  "List.map_filter (retained ascii_tables example_api example_params) sites_to_check
     = [skyscanner_outcome, google_outcome]"
  by (simp add: sites_to_check_def List.map_filter_simps retained_skyscanner retained_google
      retained_booking)

lemma price_300: "parse_price (Some [36, 51, 48, 48]) = Fin 300"
proof -
  have "parse_price (Some [36, 51, 48, 48]) = decimal_to_double (digits_value [51, 48, 48]) 0"
    by (rule parse_price_digits) (simp_all add: strip_symbols_def char_defs is_ascii_digit_def)
  then show ?thesis
    by (simp add: digits_value_def decimal_to_double_def round_double_def ilog2_def
        round_half_even_def Let_def)
qed

lemma price_250: "parse_price (Some [36, 50, 53, 48]) = Fin 250"
proof -
  have "parse_price (Some [36, 50, 53, 48]) = decimal_to_double (digits_value [50, 53, 48]) 0"
    by (rule parse_price_digits) (simp_all add: strip_symbols_def char_defs is_ascii_digit_def)
  then show ?thesis
    by (simp add: digits_value_def decimal_to_double_def round_double_def ilog2_def
        round_half_even_def Let_def)
qed

lemma example_comparison:
  "search_all_sites ascii_tables example_api example_today example_params =
     Success
       \<lparr>sites_checked = 2,
        comparison =
          [\<lparr>item_website = asc ''Google Flights'', cheapest_price = asc ''$250'',
             item_url = asc ''https://google.com/travel/flights/b'', is_best = True\<rparr>,
           \<lparr>item_website = asc ''Skyscanner'', cheapest_price = asc ''$300'',
             item_url = asc ''https://skyscanner.com/a'', is_best = False\<rparr>],
        best_deal =
          \<lparr>deal_website = asc ''Google Flights'', deal_price = asc ''$250'',
           deal_url = asc ''https://google.com/travel/flights/b'',
           deal_title = asc ''Fly $250''\<rparr>,
        all_results = [skyscanner_outcome, google_outcome]\<rparr>"
  apply (simp add: search_all_sites_valid [OF example_params_valid] example_retained)
  apply (simp add: compare_results_def find_best_def cheapest_key_def price_key_def
      BestDeal_def py_sort_by_def skyscanner_outcome_def google_outcome_def asc_def
      price_300 price_250)
  done


theorem C1_comparison_witness:
  "params_valid ascii_tables example_today example_params
   \<and> [skyscanner_outcome, google_outcome]
       = List.map_filter (retained ascii_tables example_api example_params) sites_to_check
   \<and> map item_website
         (case search_all_sites ascii_tables example_api example_today example_params of
            Success resp \<Rightarrow> comparison resp | _ \<Rightarrow> [])
       = [asc ''Google Flights'', asc ''Skyscanner'']
   \<and> (\<exists>resp b c pr pre post rows.
           search_all_sites ascii_tables example_api example_today example_params = Success resp
         \<and> sites_checked resp = length [skyscanner_outcome, google_outcome]
         \<and> all_results resp = [skyscanner_outcome, google_outcome]
         \<and> [skyscanner_outcome, google_outcome] = pre @ b # post
         \<and> (\<forall>x\<in>set pre. py_lt (price_key b) (price_key x))
         \<and> (\<forall>x\<in>set post. \<not> py_lt (price_key x) (price_key b))
         \<and> cheapest b = Some c \<and> price c = Some pr
         \<and> best_deal resp = \<lparr>deal_website = response_website b, deal_price = pr,
                               deal_url = url c, deal_title = title c\<rparr>
         \<and> list_all2 (is_row_of b) rows [skyscanner_outcome, google_outcome]
         \<and> mset (comparison resp) = mset rows
         \<and> sorted_wrt (\<lambda>x y. \<not> py_lt (parse_price (Some (cheapest_price y)))
                                       (parse_price (Some (cheapest_price x))))
                       (comparison resp)
         \<and> (\<forall>row\<in>set (comparison resp).
               is_best row \<longleftrightarrow> item_website row = deal_website (best_deal resp)))"
proof -
  have v: "params_valid ascii_tables example_today example_params"
    by (rule example_params_valid)
  have r: "[skyscanner_outcome, google_outcome]
       = List.map_filter (retained ascii_tables example_api example_params) sites_to_check"
    by (rule example_retained [symmetric])
  have n: "[skyscanner_outcome, google_outcome] \<noteq> []" by simp
  have o: "map item_website
         (case search_all_sites ascii_tables example_api example_today example_params of
            Success resp \<Rightarrow> comparison resp | _ \<Rightarrow> [])
       = [asc ''Google Flights'', asc ''Skyscanner'']"
    by (simp add: example_comparison)
  show ?thesis
    using v r o C1_comparison [OF v r n]
    by - ((rule conjI, assumption)+, assumption)
qed

theorem C6_no_results_witness:
  "params_valid ascii_tables example_today example_params
   \<and> retained ascii_tables (\<lambda>q. Timeout) example_params SKYSCANNER = None
   \<and> retained ascii_tables (\<lambda>q. Timeout) example_params GOOGLE = None
   \<and> retained ascii_tables (\<lambda>q. Timeout) example_params BOOKING = None
   \<and> search_all_sites ascii_tables (\<lambda>q. Timeout) example_today example_params
       = Failure (NoResultsAnySite [asc ''Skyscanner'', asc ''Google Flights'',
                                    asc ''Booking.com''])
   \<and> (\<exists>resp. search_all_sites ascii_tables example_api example_today example_params
               = Success resp
             \<and> all_results resp = [skyscanner_outcome, google_outcome])"
proof -
  have v: "params_valid ascii_tables example_today example_params"
    by (rule example_params_valid)
  have n1: "retained ascii_tables (\<lambda>q. Timeout) example_params SKYSCANNER = None"
    and n2: "retained ascii_tables (\<lambda>q. Timeout) example_params GOOGLE = None"
    and n3: "retained ascii_tables (\<lambda>q. Timeout) example_params BOOKING = None"
    by (simp_all add: retained_def search_flights_def WEBSITES_def)
  have none: "\<forall>site\<in>set sites_to_check.
         retained ascii_tables (\<lambda>q. Timeout) example_params site = None"
    using n1 n2 n3 by (simp add: sites_to_check_def)
  have f: "search_all_sites ascii_tables (\<lambda>q. Timeout) example_today example_params
       = Failure (NoResultsAnySite [asc ''Skyscanner'', asc ''Google Flights'',
                                    asc ''Booking.com''])"
    using C6_no_results [OF v, of "\<lambda>q. Timeout"] none by blast
  have "\<not> (\<forall>site\<in>set sites_to_check.
         retained ascii_tables example_api example_params site = None)"
    by (simp add: sites_to_check_def retained_skyscanner)
  then have "\<exists>resp. search_all_sites ascii_tables example_api example_today example_params
               = Success resp"
    using C6_no_results [OF v, of example_api]
    by (cases "search_all_sites ascii_tables example_api example_today example_params") auto
  then have s: "\<exists>resp. search_all_sites ascii_tables example_api example_today example_params
               = Success resp
             \<and> all_results resp = [skyscanner_outcome, google_outcome]"
    using C6_no_results [OF v, of example_api] example_retained by auto
  show ?thesis
    using v n1 n2 n3 f s by - ((rule conjI, assumption)+, assumption)
qed

theorem C9_website_ignored_witness:
  "origin example_params = origin (example_params\<lparr>website := GOOGLE\<rparr>)
   \<and> destination example_params = destination (example_params\<lparr>website := GOOGLE\<rparr>)
   \<and> depart_date example_params = depart_date (example_params\<lparr>website := GOOGLE\<rparr>)
   \<and> website example_params \<noteq> website (example_params\<lparr>website := GOOGLE\<rparr>)
   \<and> search_all_sites ascii_tables example_api example_today example_params
       = search_all_sites ascii_tables example_api example_today
           (example_params\<lparr>website := GOOGLE\<rparr>)"
proof -
  have a: "origin example_params = origin (example_params\<lparr>website := GOOGLE\<rparr>)"
    and b: "destination example_params = destination (example_params\<lparr>website := GOOGLE\<rparr>)"
    and c: "depart_date example_params = depart_date (example_params\<lparr>website := GOOGLE\<rparr>)"
    by simp_all
  have d: "website example_params \<noteq> website (example_params\<lparr>website := GOOGLE\<rparr>)"
    by (simp add: example_params_def)
  show ?thesis
    using a b c d C9_website_ignored [OF a b c, THEN conjunct1]
    by - ((rule conjI, assumption)+, assumption)
qed

subsection \<open>Result extraction\<close>

lemma str_of_get_field:
  "str_of f = (case get_field f of JStr s \<Rightarrow> Some s | JFalsy \<Rightarrow> None | JTruthy \<Rightarrow> None)"
  by (cases f rule: str_of.cases) (simp_all add: get_field_def)

lemma hit_step_spec:
  assumes "hit_step ucd cfg it = Inr o'"
  shows "o' = spec_extract_item ucd cfg it"
proof (cases it)
  case NonObject
  then show ?thesis using assms by (simp add: hit_step_def)
next
  case (Object h)
  show ?thesis
    using assms Object
    by (cases "get_field (hit_title h)"; cases "get_field (hit_description h)";
        cases "get_field (hit_url h)")
      (auto simp add: hit_step_def spec_extract_item_def str_of_get_field spec_extract_hit_def
        split: if_splits)
qed

lemma hit_step_well_typed:
  assumes "well_typed it"
  shows "hit_step ucd cfg it = Inr (spec_extract_item ucd cfg it)"
proof (cases it)
  case NonObject
  then show ?thesis using assms by (simp add: well_typed_def)
next
  case (Object h)
  show ?thesis
    using assms Object
    by (cases "get_field (hit_title h)"; cases "get_field (hit_description h)";
        cases "get_field (hit_url h)")
      (auto simp add: hit_step_def spec_extract_item_def str_of_get_field spec_extract_hit_def
        well_typed_def split: if_splits)
qed

lemma parse_loop_spec:
  "parse_loop ucd cfg items acc = Inr rs \<Longrightarrow>
     rs = acc @ List.map_filter (spec_extract_item ucd cfg) items"
proof (induction items arbitrary: acc)
  case Nil
  then show ?case by (simp add: List.map_filter_simps)
next
  case (Cons it items)
  show ?case
  proof (cases "hit_step ucd cfg it")
    case (Inl e)
    then show ?thesis using Cons.prems by (simp add: parse_loop_step)
  next
    case (Inr o')
    then have o': "o' = spec_extract_item ucd cfg it" by (rule hit_step_spec)
    show ?thesis
    proof (cases o')
      case None
      then show ?thesis
        using Cons Inr o' by (simp add: parse_loop_step List.map_filter_simps)
    next
      case (Some r)
      then have "parse_loop ucd cfg items (acc @ [r]) = Inr rs"
        using Cons.prems Inr by (simp add: parse_loop_step)
      then have "rs = (acc @ [r]) @ List.map_filter (spec_extract_item ucd cfg) items"
        by (rule Cons.IH)
      then show ?thesis using Some o' by (simp add: List.map_filter_simps)
    qed
  qed
qed

lemma parse_loop_well_typed:
  "list_all well_typed items \<Longrightarrow>
     parse_loop ucd cfg items acc = Inr (acc @ List.map_filter (spec_extract_item ucd cfg) items)"
proof (induction items arbitrary: acc)
  case Nil
  then show ?case by (simp add: List.map_filter_simps)
next
  case (Cons it items)
  then show ?case
    by (cases "spec_extract_item ucd cfg it")
      (simp_all add: parse_loop_step hit_step_well_typed List.map_filter_simps)
qed

lemma map_filter_append:
  "List.map_filter f (xs @ ys) = List.map_filter f xs @ List.map_filter f ys"
  by (simp add: List.map_filter_def)

text \<open>
  C8. Whenever the extraction returns, its results are, in the order of the hits, the
  results that the specification gives for each hit by itself (\<open>spec_extract_item\<close>),
  so that no hit changes what becomes of another; and it returns for every list of
  hits that are objects whose title, description and URL are strings or absent. For
  such a hit: it is skipped when its URL is empty, when the domain of the site is not
  part of the URL in lower case, and when the result cannot be built; otherwise it is
  kept, with a description of at most 200 characters unchanged and a longer one cut
  to its first 200 characters and the marker \<^verbatim>\<open>...\<close>.
\<close>

theorem C8_extractor:
  "(\<forall>rs. parse_results ucd (Results items) site_config = Inr rs \<longrightarrow>
        rs = List.map_filter (spec_extract_item ucd site_config) items)
   \<and> (list_all well_typed items \<longrightarrow>
        parse_results ucd (Results items) site_config
          = Inr (List.map_filter (spec_extract_item ucd site_config) items))
   \<and> (\<forall>xs ys. List.map_filter (spec_extract_item ucd site_config) (xs @ ys)
        = List.map_filter (spec_extract_item ucd site_config) xs
          @ List.map_filter (spec_extract_item ucd site_config) ys)
   \<and> (\<forall>t d u. spec_extract_item ucd site_config
          (Object \<lparr>hit_title = Some (JStr t), hit_description = Some (JStr d),
                   hit_url = Some (JStr u)\<rparr>)
        = (if u = [] then None
           else if \<not> contains (py_lower ucd u) (domain site_config) then None
           else if \<not> (startswith u (asc ''http://'') \<or> startswith u (asc ''https://''))
           then None
           else Some \<lparr>title = t, url = u,
                  description = (if length d \<le> 200 then d else take 200 d @ asc ''...''),
                  price = extract_price (t @ asc '' '' @ d),
                  result_website = name site_config\<rparr>))"
proof -
  have a: "rs = List.map_filter (spec_extract_item ucd site_config) items"
    if "parse_results ucd (Results items) site_config = Inr rs" for rs
    using that parse_loop_spec [of ucd site_config items "[]" rs]
    by (simp add: parse_results_def)
  have b: "parse_results ucd (Results items) site_config
          = Inr (List.map_filter (spec_extract_item ucd site_config) items)"
    if "list_all well_typed items"
    using parse_loop_well_typed [OF that, of ucd site_config "[]"]
    by (simp add: parse_results_def)
  have c: "spec_extract_item ucd site_config
          (Object \<lparr>hit_title = Some (JStr t), hit_description = Some (JStr d),
                   hit_url = Some (JStr u)\<rparr>)
        = (if u = [] then None
           else if \<not> contains (py_lower ucd u) (domain site_config) then None
           else if \<not> (startswith u (asc ''http://'') \<or> startswith u (asc ''https://''))
           then None
           else Some \<lparr>title = t, url = u,
                  description = (if length d \<le> 200 then d else take 200 d @ asc ''...''),
                  price = extract_price (t @ asc '' '' @ d),
                  result_website = name site_config\<rparr>)" for t d u
    by (simp add: spec_extract_item_def spec_extract_hit_def)
  show ?thesis
    using a b c map_filter_append by blast
qed

lemma re_search_price_absent: "cur \<notin> set s \<Longrightarrow> re_search_price cur s = None"
  by (induction s) auto

lemma extract_price_no_symbol:
  "dollar \<notin> set text \<Longrightarrow> pound \<notin> set text \<Longrightarrow> euro \<notin> set text \<Longrightarrow> extract_price text = None"
  by (simp add: extract_price_def patterns_def re_search_price_absent)

lemma extractor_example_well_typed: "list_all well_typed extractor_example"
  by (simp add: extractor_example_def hit_def well_typed_def)

lemma extractor_example_spec:
  "List.map_filter (spec_extract_item ascii_tables skyscanner_config) extractor_example
     = [\<lparr>title = asc ''A $500'', url = asc ''https://skyscanner.com'', description = asc ''p'',
          price = Some (asc ''$500''), result_website = asc ''Skyscanner''\<rparr>,
        \<lparr>title = asc ''E'', url = asc ''https://WWW.SkyScanner.COM/x'',
          description = replicate 200 97 @ asc ''...'',
          price = None, result_website = asc ''Skyscanner''\<rparr>]"
proof -
  have p: "extract_price (asc ''E'' @ asc '' '' @ asc (replicate 201 CHR ''a'')) = None"
    by (rule extract_price_no_symbol) (simp_all add: asc_def char_defs)
  have l: "length (asc (replicate 201 CHR ''a'')) = 201"
    "take 200 (asc (replicate 201 CHR ''a'')) = replicate 200 97"
    by (simp_all add: asc_def)
  have e: "spec_extract_item ascii_tables skyscanner_config
             (hit ''E'' (replicate 201 CHR ''a'') ''https://WWW.SkyScanner.COM/x'')
           = Some \<lparr>title = asc ''E'', url = asc ''https://WWW.SkyScanner.COM/x'',
                description = replicate 200 97 @ asc ''...'',
                price = None, result_website = asc ''Skyscanner''\<rparr>"
    apply (simp add: spec_extract_item_def hit_def spec_extract_hit_def p l
       )
    apply (simp add: skyscanner_config_def py_lower_def ascii_tables_def ascii_lower_def
        startswith_def asc_def)
    done
  have rest:
    "spec_extract_item ascii_tables skyscanner_config (hit ''A $500'' ''p'' ''https://skyscanner.com'')
       = Some \<lparr>title = asc ''A $500'', url = asc ''https://skyscanner.com'', description = asc ''p'',
          price = Some (asc ''$500''), result_website = asc ''Skyscanner''\<rparr>"
    "spec_extract_item ascii_tables skyscanner_config (hit ''B'' ''q'' []) = None"
    "spec_extract_item ascii_tables skyscanner_config (hit ''C'' ''r'' ''https://example.com'') = None"
    "spec_extract_item ascii_tables skyscanner_config (hit ''D'' ''s'' ''ftp://skyscanner.com'') = None"
    by (simp_all add: spec_extract_item_def skyscanner_config_def eval_hit)
  show ?thesis
    by (simp add: extractor_example_def List.map_filter_simps e rest)
qed

theorem C8_extractor_witness:
  "list_all well_typed extractor_example
   \<and> parse_results ascii_tables (Results extractor_example) skyscanner_config
       = Inr [\<lparr>title = asc ''A $500'', url = asc ''https://skyscanner.com'',
                description = asc ''p'', price = Some (asc ''$500''),
                result_website = asc ''Skyscanner''\<rparr>,
              \<lparr>title = asc ''E'', url = asc ''https://WWW.SkyScanner.COM/x'',
                description = replicate 200 97 @ asc ''...'',
                price = None, result_website = asc ''Skyscanner''\<rparr>]"
proof -
  have w: "list_all well_typed extractor_example" by (rule extractor_example_well_typed)
  have "parse_results ascii_tables (Results extractor_example) skyscanner_config
          = Inr (List.map_filter (spec_extract_item ascii_tables skyscanner_config)
                   extractor_example)"
    using C8_extractor [of ascii_tables extractor_example skyscanner_config] w by blast
  then show ?thesis using w by (simp only: extractor_example_spec simp_thms)
qed

subsection \<open>Validation of the parameters\<close>

text \<open>
  The validator of the airport codes by itself: when no full uppercase mapping is
  empty or holds a line feed, it accepts exactly the strings whose trimmed uppercase
  form is three letters \<^verbatim>\<open>A-Z\<close>, and returns that form. A field passes only with a raw
  string of three characters.
\<close>

lemma py_strip_last: "py_strip v \<noteq> [] \<Longrightarrow> \<not> is_space (last (py_strip v))"
proof -
  assume ne: "py_strip v \<noteq> []"
  let ?d = "dropWhile is_space (rev (dropWhile is_space v))"
  have d: "?d \<noteq> []" using ne by (simp add: py_strip_def)
  then have "\<not> is_space (hd ?d)" by (rule hd_dropWhile)
  moreover have "last (py_strip v) = hd ?d"
    using d by (simp add: py_strip_def last_rev)
  ultimately show ?thesis by simp
qed

lemma last_concat_map:
  "s \<noteq> [] \<Longrightarrow> \<forall>c. f c \<noteq> [] \<Longrightarrow> last (concat (map f s)) = last (f (last s))"
  by (induction s) (auto simp add: last_append)

lemma py_upper_last:
  assumes "\<forall>c. upper_full ucd c \<noteq> [] \<and> 10 \<notin> set (upper_full ucd c)"
    and "py_strip v \<noteq> []"
  shows "last (py_upper ucd (py_strip v)) \<noteq> 10"
proof -
  let ?f = "\<lambda>c. if c < 128 then [ascii_upper c] else upper_full ucd c"
  let ?c = "last (py_strip v)"
  have ne: "\<forall>c. ?f c \<noteq> []" using assms(1) by simp
  have l: "last (py_upper ucd (py_strip v)) = last (?f ?c)"
    unfolding py_upper_def using assms(2) ne by (rule last_concat_map)
  have "\<not> is_space ?c" using assms(2) by (rule py_strip_last)
  then have c: "?c \<noteq> 10" by (auto simp add: is_space_def)
  show ?thesis
  proof (cases "?c < 128")
    case True
    then show ?thesis using l c by (auto simp add: ascii_upper_def split: if_splits)
  next
    case False
    then have "last (?f ?c) \<in> set (upper_full ucd ?c)" using assms(1) by simp
    then show ?thesis using l assms(1) by metis
  qed
qed

lemma validate_airport_code_spec:
  assumes "\<forall>c. upper_full ucd c \<noteq> [] \<and> 10 \<notin> set (upper_full ucd c)"
  shows "validate_airport_code ucd v =
           (let n = py_upper ucd (py_strip v) in
            if length n = 3 \<and> list_all is_upper_letter n then Inr n
            else Inl (InvalidAirportCode n))"
proof -
  let ?n = "py_upper ucd (py_strip v)"
  have "match_airport ?n \<longleftrightarrow> length ?n = 3 \<and> list_all is_upper_letter ?n"
  proof
    assume m: "match_airport ?n"
    then have t: "list_all is_upper_letter (take 3 ?n)" "length (take 3 ?n) = 3"
      and d: "drop 3 ?n = [] \<or> drop 3 ?n = [10]"
      by (simp_all add: match_airport_def)
    have "drop 3 ?n \<noteq> [10]"
    proof
      assume e: "drop 3 ?n = [10]"
      then have "?n \<noteq> []" by auto
      then have s: "py_strip v \<noteq> []" by (auto simp add: py_upper_def)
      have "?n = take 3 ?n @ [10]" using e append_take_drop_id [of 3 ?n] by simp
      then have "last ?n = 10" by (metis last_snoc)
      then show False using py_upper_last [OF assms s] by simp
    qed
    then have "drop 3 ?n = []" using d by simp
    then have "take 3 ?n = ?n" by simp
    then show "length ?n = 3 \<and> list_all is_upper_letter ?n" using t by simp
  next
    assume "length ?n = 3 \<and> list_all is_upper_letter ?n"
    then show "match_airport ?n" by (simp add: match_airport_def)
  qed
  then show ?thesis by (simp add: validate_airport_code_def Let_def)
qed

lemma airport_field_length: "airport_field ucd raw = Inr v \<Longrightarrow> length raw = 3"
  by (auto simp add: airport_field_def split: if_splits)

lemma pound_only_example:
  "extract_price (asc ''from '' @ [pound] @ asc ''150'') = Some (pound # asc ''150'')"
  by (simp add: extract_price_def patterns_def asc_def char_defs price_class_def is_decimal_low)

text \<open>
  C7. The claim says that the validator fails on every string that is not in the
  format YYYY-MM-DD. \<^verbatim>\<open>strptime\<close> does not ask for two digits in the month and the
  day: the code accepts \<^verbatim>\<open>2099-1-5\<close>, and \<^verbatim>\<open>2099-01- 5\<close> with a blank, and returns
  them unchanged.
\<close>

theorem C7_unpadded_date_is_accepted:
  "strptime_ymd (asc ''2099-1-5'') = Some (2099, 1, 5)
   \<and> validate_date example_today (asc ''2099-1-5'') = Inr (asc ''2099-1-5'')
   \<and> validate_date example_today (asc ''2099-01- 5'') = Inr (asc ''2099-01- 5'')"
  by (simp add: example_today_def asc_def
      validate_date_def strptime_ymd_def match_ymd_def match_year_def month_alts_def
      day_alts_def valid_date_def days_in_month_def is_leap_def date_less_def
      to_decimal_def nd_zeros_def)

text \<open>
  C3. The claim says that a code of three letters is accepted with blanks around it,
  as \<^verbatim>\<open>jfk \<close> with a blank at its end. The validator of the class would return
  \<^verbatim>\<open>JFK\<close> for it, but the field is declared with at most three characters and that
  is checked first, on the raw string: the field fails for being too long, and so
  does the construction of the parameters.
\<close>

theorem C3_padded_code_is_refused:
  "airport_field ucd (asc ''jfk '') = Inl StringTooLong
   \<and> validate_airport_code ascii_tables (asc ''jfk '') = Inr (asc ''JFK'')
   \<and> FlightSearchParams ascii_tables example_today (asc ''jfk '') (asc ''lhr'')
         (asc ''2099-01-05'') GOOGLE = Inl [StringTooLong]"
  by (simp add: airport_field_def is_surrogate_def FlightSearchParams_def errors_of_def
      example_today_def
      validate_airport_code_def py_strip_def py_upper_def ascii_upper_def is_space_def
      match_airport_def is_upper_letter_def asc_def ascii_tables_def
      validate_date_def strptime_ymd_def match_ymd_def match_year_def month_alts_def
      day_alts_def valid_date_def days_in_month_def is_leap_def date_less_def
      to_decimal_def nd_zeros_def)

end
